theory Spec2Isabelle
  imports Main
begin

section \<open>Python strings\<close>

text \<open>
  A Python \<open>str\<close> is a sequence of Unicode code points. Here a \<^typ>\<open>char\<close> stands for the
  code point with the same number, so a \<^typ>\<open>string\<close> is a Python string over the code
  points 0 to 255, and \<^const>\<open>length\<close> counts code points as \<open>len\<close> does. The character
  classes below are the ones CPython's Unicode database gives on that range. The time
  formatter, whose digit class is wider beyond that range, is modelled a second time on
  strings of arbitrary code points.
\<close>

definition cp :: "char \<Rightarrow> nat" where
  "cp c = of_char c"

text \<open>\<open>c.isalnum()\<close>: ASCII digits and letters, and the letters, superscript digits and
  vulgar fractions of the upper half.\<close>

definition isalnum :: "char \<Rightarrow> bool" where
  "isalnum c =
     (let n = cp c in
        (48 \<le> n \<and> n \<le> 57) \<or> (65 \<le> n \<and> n \<le> 90) \<or> (97 \<le> n \<and> n \<le> 122) \<or>
        n = 170 \<or> n = 178 \<or> n = 179 \<or> n = 181 \<or> n = 185 \<or> n = 186 \<or>
        (188 \<le> n \<and> n \<le> 190) \<or> (192 \<le> n \<and> n \<le> 214) \<or>
        (216 \<le> n \<and> n \<le> 246) \<or> (248 \<le> n \<and> n \<le> 255))"

text \<open>The characters \<open>str.strip()\<close> removes when called without an argument.\<close>

definition isspace :: "char \<Rightarrow> bool" where
  "isspace c =
     (let n = cp c in
        (9 \<le> n \<and> n \<le> 13) \<or> (28 \<le> n \<and> n \<le> 32) \<or> n = 133 \<or> n = 160)"

definition strip :: "string \<Rightarrow> string" where
  "strip s = rev (dropWhile isspace (rev (dropWhile isspace s)))"

text \<open>The regular expression class \<open>\d\<close> on this range, and \<open>int\<close> of a digit string.\<close>

definition in_range :: "char \<Rightarrow> char \<Rightarrow> char \<Rightarrow> bool" where
  "in_range lo hi c = (cp lo \<le> cp c \<and> cp c \<le> cp hi)"

definition isdigit :: "char \<Rightarrow> bool" where
  "isdigit c = in_range (CHR ''0'') (CHR ''9'') c"

definition digit_val :: "char \<Rightarrow> nat" where
  "digit_val c = cp c - 48"

definition int_of_digits :: "string \<Rightarrow> nat" where
  "int_of_digits s = foldl (\<lambda>acc c. 10 * acc + digit_val c) 0 s"

definition digit_char :: "nat \<Rightarrow> char" where
  "digit_char d = char_of (48 + d)"

text \<open>\<open>"%02d" % n\<close> for the fields of a time of day, which are below 100.\<close>

definition pad2 :: "nat \<Rightarrow> string" where
  "pad2 n = [digit_char (n div 10), digit_char (n mod 10)]"

text \<open>\<open>s.split(sep)\<close> for a one-character separator.\<close>

fun split_sep :: "'a \<Rightarrow> 'a list \<Rightarrow> 'a list list" where
  "split_sep sep [] = [[]]"
| "split_sep sep (c # cs) =
     (if c = sep then [] # split_sep sep cs
      else (c # hd (split_sep sep cs)) # tl (split_sep sep cs))"

text \<open>\<open>sep.join(xs)\<close>.\<close>

fun join :: "'a list \<Rightarrow> 'a list list \<Rightarrow> 'a list" where
  "join sep [] = []"
| "join sep [x] = x"
| "join sep (x # y # ys) = x @ sep @ join sep (y # ys)"

section \<open>Sheet-name sanitization\<close>

text \<open>
  \<^verbatim>\<open>safe_sheet_name = "".join(c if c.isalnum() or c in ("-", "_") else "_" for c in sheet_name)\<close>
\<close>

definition keep_char :: "char \<Rightarrow> bool" where
  "keep_char c = (isalnum c \<or> c = CHR ''-'' \<or> c = CHR ''_'')"

definition sanitize_char :: "char \<Rightarrow> char" where
  "sanitize_char c = (if keep_char c then c else CHR ''_'')"

definition safe_sheet_name :: "string \<Rightarrow> string" where
  "safe_sheet_name sheet_name = concat (map (\<lambda>c. [sanitize_char c]) sheet_name)"

text \<open>The line feed character.\<close>

definition NL :: char where
  "NL = CHR 0x0A"

section \<open>Time formatter\<close>

text \<open>
  The exceptions that can reach the program: \<open>ValueError\<close> from \<open>datetime.strptime\<close>,
  \<open>AttributeError\<close> from calling \<open>strftime\<close> on an object that has no such method, an error
  of the template engine, and \<open>OSError\<close> from opening an output file.
\<close>

datatype exn = ValueError | AttributeError | TemplateError | OSError

text \<open>
  \<open>datetime.strptime(value, "%H:%M:%S")\<close> compiles the format to the regular expression
  \<^verbatim>\<open>(?P<H>2[0-3]|[0-1]\d|\d):(?P<M>[0-5]\d|\d):(?P<S>6[0-1]|[0-5]\d|\d)\<close>
  and calls \<open>match\<close> on it. A matcher returns every way of matching a prefix of its input,
  as the matched text and the rest, in the order the backtracking engine tries them:
  alternatives from left to right.
\<close>

type_synonym 'a matcher = "'a list \<Rightarrow> ('a list \<times> 'a list) list"

definition re_char :: "('a \<Rightarrow> bool) \<Rightarrow> 'a matcher" where
  "re_char P s = (case s of [] \<Rightarrow> [] | a # r \<Rightarrow> if P a then [([a], r)] else [])"

definition re_seq :: "'a matcher \<Rightarrow> 'a matcher \<Rightarrow> 'a matcher" where
  "re_seq p q s = List.bind (p s) (\<lambda>(x, r). map (\<lambda>(y, r'). (x @ y, r')) (q r))"

definition re_alt :: "'a matcher \<Rightarrow> 'a matcher \<Rightarrow> 'a matcher" where
  "re_alt p q s = p s @ q s"

definition re_H :: "char matcher" where
  "re_H = re_alt (re_seq (re_char (\<lambda>c. c = CHR ''2'')) (re_char (in_range (CHR ''0'') (CHR ''3''))))
         (re_alt (re_seq (re_char (in_range (CHR ''0'') (CHR ''1''))) (re_char isdigit))
                 (re_char isdigit))"

definition re_M :: "char matcher" where
  "re_M = re_alt (re_seq (re_char (in_range (CHR ''0'') (CHR ''5''))) (re_char isdigit))
                 (re_char isdigit)"

definition re_S :: "char matcher" where
  "re_S = re_alt (re_seq (re_char (\<lambda>c. c = CHR ''6'')) (re_char (in_range (CHR ''0'') (CHR ''1''))))
         (re_alt (re_seq (re_char (in_range (CHR ''0'') (CHR ''5''))) (re_char isdigit))
                 (re_char isdigit))"

definition re_colon :: "char matcher" where
  "re_colon = re_char (\<lambda>c. c = CHR '':'')"

text \<open>The whole expression, with the three named groups.\<close>

definition format_regex :: "string \<Rightarrow> ((string \<times> string \<times> string) \<times> string) list" where
  "format_regex s =
     List.bind (re_H s) (\<lambda>(h, r1).
     List.bind (re_colon r1) (\<lambda>(_, r2).
     List.bind (re_M r2) (\<lambda>(m, r3).
     List.bind (re_colon r3) (\<lambda>(_, r4).
     map (\<lambda>(x, r5). ((h, m, x), r5)) (re_S r4)))))"

text \<open>
  \<open>strptime\<close> takes the first match. It raises \<open>ValueError\<close> when there is none, when the
  match ends before the end of the string, and when the \<open>datetime\<close> constructor rejects a
  field (seconds 60 and 61 pass the expression). The result is the time of day.
\<close>

definition strptime :: "string \<Rightarrow> exn + (nat \<times> nat \<times> nat)" where
  "strptime data_string =
     (case format_regex data_string of
        [] \<Rightarrow> Inl ValueError
      | ((h, m, x), rest) # _ \<Rightarrow>
          if rest \<noteq> [] then Inl ValueError
          else let hour = int_of_digits h; minute = int_of_digits m; second = int_of_digits x
               in if hour \<le> 23 \<and> minute \<le> 59 \<and> second \<le> 59
                  then Inr (hour, minute, second) else Inl ValueError)"

text \<open>
  \<open>dt.strftime("%I:%M %p")\<close> in the C locale, which is the locale of a Python process that
  never calls \<open>setlocale\<close> for \<open>LC_TIME\<close>: the hour on the 12-hour clock and the minute,
  both as two digits, and \<open>AM\<close> or \<open>PM\<close>.
\<close>

definition strftime :: "nat \<times> nat \<times> nat \<Rightarrow> string" where
  "strftime dt =
     (case dt of (hour, minute, second) \<Rightarrow>
        pad2 (if hour mod 12 = 0 then 12 else hour mod 12) @ '':'' @ pad2 minute @ '' '' @
        (if hour < 12 then ''AM'' else ''PM''))"

text \<open>
  The values \<open>format_time\<close> can be called with: \<open>None\<close>, a string, an object with a time of
  day (hour, minute, second) and a \<open>strftime\<close> method, and any other object.
\<close>

datatype pyvalue = PyNone | PyStr string | PyTime nat nat nat | PyOther

definition format_time :: "pyvalue \<Rightarrow> exn + string" where
  "format_time v =
     (if v = PyNone \<or> v = PyStr [] then Inr []
      else case v of
             PyStr s \<Rightarrow>
               (case strptime s of
                  Inl e \<Rightarrow> if e = ValueError then Inr s else Inl e
                | Inr dt \<Rightarrow> Inr (strftime dt))
           | PyTime h m x \<Rightarrow> Inr (strftime (h, m, x))
           | _ \<Rightarrow> Inl AttributeError)"

text \<open>
  A valid 24-hour \<open>HH:MM:SS\<close> string: two digits, a colon, two digits, a colon, two digits,
  with the hour at most 23 and minute and second at most 59.
\<close>

fun valid_HHMMSS :: "string \<Rightarrow> bool" where
  "valid_HHMMSS [a, b, p, c, d, q, e, f] =
     (p = CHR '':'' \<and> q = CHR '':'' \<and>
      isdigit a \<and> isdigit b \<and> isdigit c \<and> isdigit d \<and> isdigit e \<and> isdigit f \<and>
      int_of_digits [a, b] \<le> 23 \<and> int_of_digits [c, d] \<le> 59 \<and> int_of_digits [e, f] \<le> 59)"
| "valid_HHMMSS _ = False"

text \<open>
  The strings \<open>H:M:S\<close> whose three fields have one or two digits each, with the same bounds.
\<close>

definition field_ok :: "nat \<Rightarrow> string \<Rightarrow> bool" where
  "field_ok bound f =
     ((length f = 1 \<or> length f = 2) \<and> list_all isdigit f \<and> int_of_digits f \<le> bound)"

definition lenient_HMS :: "string \<Rightarrow> bool" where
  "lenient_HMS s =
     (case split_sep (CHR '':'') s of
        [h, m, x] \<Rightarrow> field_ok 23 h \<and> field_ok 59 m \<and> field_ok 59 x
      | _ \<Rightarrow> False)"

section \<open>Time formatter on all Unicode strings\<close>

text \<open>
  Beyond code point 255 a Python string can hold decimal digits that are not ASCII, such as
  the Arabic-Indic ones. The class \<open>\d\<close> of the regular expression matches every character
  that the Unicode database classifies as a decimal digit, and \<open>int\<close> reads each by its
  decimal value; the ranges \<open>[0-1]\<close>, \<open>[0-3]\<close>, \<open>[0-5]\<close> and the literal characters match
  ASCII only. Here a string is the list of its code points, and the database is a
  parameter \<open>D\<close>, which gives the decimal value of a code point that is a decimal digit: it
  grows from one version of Unicode to the next.
\<close>

text \<open>
  What the statements need of the database: the ASCII digits are decimal digits with their
  values, a decimal value is below 10, and the colon is not a decimal digit.
\<close>

definition decimal_table :: "(nat \<Rightarrow> nat option) \<Rightarrow> bool" where
  "decimal_table D =
     ((\<forall>k<10. D (cp (CHR ''0'') + k) = Some k) \<and> (\<forall>c d. D c = Some d \<longrightarrow> d < 10) \<and>
      D (cp (CHR '':'')) = None)"

text \<open>
  The class \<open>\d\<close>, an ASCII range such as \<open>[0-3]\<close>, and \<open>int\<close> of a string of decimal digits.
\<close>

definition udigit :: "(nat \<Rightarrow> nat option) \<Rightarrow> nat \<Rightarrow> bool" where
  "udigit D c = (D c \<noteq> None)"

definition between :: "char \<Rightarrow> char \<Rightarrow> nat \<Rightarrow> bool" where
  "between lo hi c = (cp lo \<le> c \<and> c \<le> cp hi)"

definition uint :: "(nat \<Rightarrow> nat option) \<Rightarrow> nat list \<Rightarrow> nat" where
  "uint D s = foldl (\<lambda>acc c. 10 * acc + (case D c of None \<Rightarrow> 0 | Some d \<Rightarrow> d)) 0 s"

text \<open>
  The three groups, the colon, the whole expression, \<open>strptime\<close> and \<open>format_time\<close> on a
  string, as above.
\<close>

definition ure_H :: "(nat \<Rightarrow> nat option) \<Rightarrow> nat matcher" where
  "ure_H D = re_alt (re_seq (re_char (\<lambda>c. c = cp (CHR ''2''))) (re_char (between (CHR ''0'') (CHR ''3''))))
            (re_alt (re_seq (re_char (between (CHR ''0'') (CHR ''1''))) (re_char (udigit D)))
                    (re_char (udigit D)))"

definition ure_M :: "(nat \<Rightarrow> nat option) \<Rightarrow> nat matcher" where
  "ure_M D = re_alt (re_seq (re_char (between (CHR ''0'') (CHR ''5''))) (re_char (udigit D)))
                    (re_char (udigit D))"

definition ure_S :: "(nat \<Rightarrow> nat option) \<Rightarrow> nat matcher" where
  "ure_S D = re_alt (re_seq (re_char (\<lambda>c. c = cp (CHR ''6''))) (re_char (between (CHR ''0'') (CHR ''1''))))
            (re_alt (re_seq (re_char (between (CHR ''0'') (CHR ''5''))) (re_char (udigit D)))
                    (re_char (udigit D)))"

definition ure_colon :: "nat matcher" where
  "ure_colon = re_char (\<lambda>c. c = cp (CHR '':''))"

definition uformat_regex ::
  "(nat \<Rightarrow> nat option) \<Rightarrow> nat list \<Rightarrow> ((nat list \<times> nat list \<times> nat list) \<times> nat list) list" where
  "uformat_regex D s =
     List.bind (ure_H D s) (\<lambda>(h, r1).
     List.bind (ure_colon r1) (\<lambda>(_, r2).
     List.bind (ure_M D r2) (\<lambda>(m, r3).
     List.bind (ure_colon r3) (\<lambda>(_, r4).
     map (\<lambda>(x, r5). ((h, m, x), r5)) (ure_S D r4)))))"

definition ustrptime :: "(nat \<Rightarrow> nat option) \<Rightarrow> nat list \<Rightarrow> exn + (nat \<times> nat \<times> nat)" where
  "ustrptime D data_string =
     (case uformat_regex D data_string of
        [] \<Rightarrow> Inl ValueError
      | ((h, m, x), rest) # _ \<Rightarrow>
          if rest \<noteq> [] then Inl ValueError
          else let hour = uint D h; minute = uint D m; second = uint D x
               in if hour \<le> 23 \<and> minute \<le> 59 \<and> second \<le> 59
                  then Inr (hour, minute, second) else Inl ValueError)"

definition uformat_time :: "(nat \<Rightarrow> nat option) \<Rightarrow> nat list \<Rightarrow> exn + nat list" where
  "uformat_time D v =
     (if v = [] then Inr []
      else case ustrptime D v of
             Inl e \<Rightarrow> if e = ValueError then Inr v else Inl e
           | Inr dt \<Rightarrow> Inr (map cp (strftime dt)))"

text \<open>
  The strings \<open>H:M:S\<close> that the parser accepts, by the shape of their fields: the hour is a
  decimal digit, or 0 or 1 and a decimal digit, or 2 and one of 0 to 3; the minute and the
  second are a decimal digit, or one of 0 to 5 and a decimal digit.
\<close>

fun hour_field :: "(nat \<Rightarrow> nat option) \<Rightarrow> nat list \<Rightarrow> bool" where
  "hour_field D [a] = udigit D a"
| "hour_field D [a, b] =
     ((between (CHR ''0'') (CHR ''1'') a \<and> udigit D b) \<or>
      (a = cp (CHR ''2'') \<and> between (CHR ''0'') (CHR ''3'') b))"
| "hour_field D _ = False"

fun minsec_field :: "(nat \<Rightarrow> nat option) \<Rightarrow> nat list \<Rightarrow> bool" where
  "minsec_field D [a] = udigit D a"
| "minsec_field D [a, b] = (between (CHR ''0'') (CHR ''5'') a \<and> udigit D b)"
| "minsec_field D _ = False"

definition accepted_HMS :: "(nat \<Rightarrow> nat option) \<Rightarrow> nat list \<Rightarrow> bool" where
  "accepted_HMS D s =
     (case split_sep (cp (CHR '':'')) s of
        [h, m, x] \<Rightarrow> hour_field D h \<and> minsec_field D m \<and> minsec_field D x
      | _ \<Rightarrow> False)"

text \<open>
  The database of Unicode 14.0, which CPython 3.11 carries: the decimal digits come in runs
  of ten, from the digit zero of a script to its digit nine, and these are the code points
  of the zeros.
\<close>

definition decimal_zeros :: "nat list" where
  "decimal_zeros =
     [48, 1632, 1776, 1984, 2406, 2534, 2662, 2790, 2918, 3046, 3174, 3302, 3430, 3558, 3664,
      3792, 3872, 4160, 4240, 6112, 6160, 6470, 6608, 6784, 6800, 6992, 7088, 7232, 7248, 42528,
      43216, 43264, 43472, 43504, 43600, 44016, 65296, 66720, 68912, 69734, 69872, 69942, 70096,
      70384, 70736, 70864, 71248, 71360, 71472, 71904, 72016, 72784, 73040, 73120, 92768, 92864,
      93008, 120782, 120792, 120802, 120812, 120822, 123200, 123632, 125264, 130032]"

definition unicode_decimal :: "nat \<Rightarrow> nat option" where
  "unicode_decimal c =
     (case find (\<lambda>z. z \<le> c \<and> c < z + 10) decimal_zeros of
        None \<Rightarrow> None
      | Some z \<Rightarrow> Some (c - z))"

text \<open>Up to code point 255 the decimal digits are the ASCII ones.\<close>

definition ascii_below_256 :: "(nat \<Rightarrow> nat option) \<Rightarrow> bool" where
  "ascii_below_256 D = (\<forall>c<256. D c \<noteq> None \<longrightarrow> cp (CHR ''0'') \<le> c \<and> c \<le> cp (CHR ''9''))"

section \<open>Paths\<close>

text \<open>
  A \<open>pathlib\<close> path on a POSIX system: its root (empty, \<open>/\<close> or \<open>//\<close>) and its
  components. \<open>joinpath p s\<close> is \<open>p / s\<close>, \<open>parent\<close> and \<open>name\<close> are the properties of
  these names.
\<close>

record path =
  root :: string
  parts :: "string list"

definition splitroot :: "string \<Rightarrow> string" where
  "splitroot part =
     (let n = length (takeWhile (\<lambda>c. c = CHR ''/'') part)
      in if n = 0 then [] else if n = 2 then ''//'' else ''/'')"

definition parse_parts :: "string \<Rightarrow> string list" where
  "parse_parts s = filter (\<lambda>x. x \<noteq> [] \<and> x \<noteq> ''.'') (split_sep (CHR ''/'') s)"

definition joinpath :: "path \<Rightarrow> string \<Rightarrow> path" where
  "joinpath p s =
     (if splitroot s \<noteq> [] then \<lparr>root = splitroot s, parts = parse_parts s\<rparr>
      else p\<lparr>parts := parts p @ parse_parts s\<rparr>)"

definition parent :: "path \<Rightarrow> path" where
  "parent p = p\<lparr>parts := butlast (parts p)\<rparr>"

definition name :: "path \<Rightarrow> string" where
  "name p = (if parts p = [] then [] else last (parts p))"

section \<open>Spreadsheet, template and process state\<close>

text \<open>
  A data frame has its column labels and its rows; a row gives the cell under each label.
  \<open>read_excel\<close> with \<open>dtype=str\<close> yields strings and missing cells (\<open>None\<close> here), which
  \<open>fillna("")\<close> replaces by the empty string.
\<close>

record 'a dataframe =
  columns :: "string list"
  rows :: "(string \<Rightarrow> 'a) list"

type_synonym cell = "string option"

definition fillna :: "cell dataframe \<Rightarrow> string dataframe" where
  "fillna df =
     \<lparr>columns = columns df,
      rows = map (\<lambda>row col. case row col of None \<Rightarrow> [] | Some v \<Rightarrow> v) (rows df)\<rparr>"

text \<open>
  The template engine is outside the program: a loaded template is any function from a
  context to the rendered text or an exception.
\<close>

type_synonym template = "(string \<rightharpoonup> string) \<Rightarrow> exn + string"

text \<open>
  The lines printed to the console, one constructor for each \<open>print\<close> call of the program
  with the values it interpolates. The state of the process is the console output and the
  files written so far, in the order of the writes.
\<close>

datatype line =
    ExcelNotFound path
  | TemplateFileNotFound path
  | TemplateFolderNotFound path
  | ReadFailed string
  | MessagesWritten nat path
  | Done nat nat

record world =
  stdout :: "line list"
  writes :: "(path \<times> string) list"

text \<open>
  What the program reads from its surroundings: which paths exist, the template directory,
  the result of \<open>pd.read_excel\<close> (the text of the exception, or the sheets in workbook order),
  the result of \<open>get_template\<close>, and whether a file can be opened for writing.
\<close>

record env =
  path_exists :: "path \<Rightarrow> bool"
  TEMPLATE_DIR :: path
  read_excel :: "path \<Rightarrow> string + (string \<times> cell dataframe) list"
  get_template :: "string \<Rightarrow> exn + template"
  open_w :: "path \<Rightarrow> bool"

datatype outcome = Returned | SysExit nat | Raised exn

definition print :: "line \<Rightarrow> world \<Rightarrow> world" where
  "print l w = w\<lparr>stdout := stdout w @ [l]\<rparr>"

section \<open>generate_emails\<close>

text \<open>
  \<^verbatim>\<open>context = {col: row[col] for col in df.columns}\<close> and \<^verbatim>\<open>row.get(key, default)\<close>.
\<close>

definition make_context :: "string list \<Rightarrow> (string \<Rightarrow> string) \<Rightarrow> (string \<rightharpoonup> string)" where
  "make_context cols row = fold (\<lambda>col context. context(col \<mapsto> row col)) cols Map.empty"

definition row_get :: "string list \<Rightarrow> (string \<Rightarrow> string) \<Rightarrow> string \<Rightarrow> string \<Rightarrow> string" where
  "row_get cols row key dflt = (if key \<in> set cols then row key else dflt)"

definition message_block :: "string \<Rightarrow> string \<Rightarrow> string" where
  "message_block to_line text =
     to_line @ [NL, NL] @ text @ [NL, NL] @ replicate 60 (CHR ''-'') @ [NL]"

text \<open>The body of the loop over the rows, and the loop.\<close>

definition render_row ::
  "template \<Rightarrow> string list \<Rightarrow> (string \<Rightarrow> string) \<Rightarrow> string list \<Rightarrow> exn + string list" where
  "render_row template cols row messages =
     (let context = make_context cols row
      in case context ''Time'' of
           None \<Rightarrow> Inr messages
         | Some t \<Rightarrow>
             (case format_time (PyStr t) of
                Inl e \<Rightarrow> Inl e
              | Inr t' \<Rightarrow>
                  (case template (context(''Time'' \<mapsto> t')) of
                     Inl e \<Rightarrow> Inl e
                   | Inr out \<Rightarrow>
                       let text = strip out;
                           to_line = ''To: '' @ strip (row_get cols row ''email'' [])
                       in Inr (messages @ [message_block to_line text]))))"

fun iterrows ::
  "template \<Rightarrow> string list \<Rightarrow> (string \<Rightarrow> string) list \<Rightarrow> string list \<Rightarrow> exn + string list" where
  "iterrows template cols [] messages = Inr messages"
| "iterrows template cols (row # rest) messages =
     (case render_row template cols row messages of
        Inl e \<Rightarrow> Inl e
      | Inr messages' \<Rightarrow> iterrows template cols rest messages')"

definition output_name :: "string \<Rightarrow> string" where
  "output_name sheet_name = ''emails_output_'' @ safe_sheet_name sheet_name @ ''.txt''"

text \<open>The body of the loop over the sheets, and the loop.\<close>

definition process_sheet ::
  "env \<Rightarrow> template \<Rightarrow> path \<Rightarrow> string \<times> cell dataframe \<Rightarrow> nat \<Rightarrow> world \<Rightarrow> (exn + nat) \<times> world" where
  "process_sheet e template output_dir sheet total_messages w =
     (case sheet of (sheet_name, df0) \<Rightarrow>
        let df = fillna df0
        in case iterrows template (columns df) (rows df) [] of
             Inl ex \<Rightarrow> (Inl ex, w)
           | Inr messages \<Rightarrow>
               let output_path = joinpath output_dir (output_name sheet_name)
               in if \<not> open_w e output_path then (Inl OSError, w)
                  else (Inr (total_messages + length (rows df)),
                        print (MessagesWritten (length (rows df)) output_path)
                          (w\<lparr>writes := writes w @ [(output_path, join [NL] messages)]\<rparr>)))"

fun sheets_loop ::
  "env \<Rightarrow> template \<Rightarrow> path \<Rightarrow> (string \<times> cell dataframe) list \<Rightarrow> nat \<Rightarrow> world \<Rightarrow> (exn + nat) \<times> world" where
  "sheets_loop e template output_dir [] total_messages w = (Inr total_messages, w)"
| "sheets_loop e template output_dir (sheet # rest) total_messages w =
     (case process_sheet e template output_dir sheet total_messages w of
        (Inl ex, w') \<Rightarrow> (Inl ex, w')
      | (Inr total', w') \<Rightarrow> sheets_loop e template output_dir rest total' w')"

definition generate_emails :: "env \<Rightarrow> path \<Rightarrow> string \<Rightarrow> world \<Rightarrow> outcome \<times> world" where
  "generate_emails e excel_path template_file w =
     (if \<not> path_exists e excel_path then (SysExit 1, print (ExcelNotFound excel_path) w)
      else
        let template_path = joinpath (TEMPLATE_DIR e) template_file
        in if \<not> path_exists e template_path
           then (SysExit 1, print (TemplateFileNotFound template_path) w)
           else if \<not> path_exists e (TEMPLATE_DIR e)
           then (SysExit 1, print (TemplateFolderNotFound (TEMPLATE_DIR e)) w)
           else
             case read_excel e excel_path of
               Inl msg \<Rightarrow> (SysExit 1, print (ReadFailed msg) w)
             | Inr sheets \<Rightarrow>
                 (case get_template e template_file of
                    Inl ex \<Rightarrow> (Raised ex, w)
                  | Inr template \<Rightarrow>
                      (case sheets_loop e template (parent excel_path) sheets 0 w of
                         (Inl ex, w') \<Rightarrow> (Raised ex, w')
                       | (Inr total_messages, w') \<Rightarrow>
                           (Returned, print (Done total_messages (length sheets)) w'))))"

section \<open>Notions used in the statements\<close>

text \<open>
  The number of rows in the sheets that have a \<open>Time\<close> column, and in all sheets.
\<close>

definition time_sheet_rows :: "(string \<times> cell dataframe) list \<Rightarrow> nat" where
  "time_sheet_rows sheets =
     sum_list (map (\<lambda>(sheet_name, df). if ''Time'' \<in> set (columns df) then length (rows df) else 0) sheets)"

definition all_sheet_rows :: "(string \<times> cell dataframe) list \<Rightarrow> nat" where
  "all_sheet_rows sheets = sum_list (map (\<lambda>(sheet_name, df). length (rows df)) sheets)"

text \<open>In a file system, the directory of an existing path exists.\<close>

definition fs_closed :: "(path \<Rightarrow> bool) \<Rightarrow> bool" where
  "fs_closed ex = (\<forall>p. ex p \<longrightarrow> ex (parent p))"

text \<open>
  The files after a sequence of writes: \<open>open(path, "w")\<close> creates the file or truncates it,
  so a later write to a path replaces what an earlier one left there.
\<close>

definition written_files :: "(path \<times> string) list \<Rightarrow> (path \<rightharpoonup> string)" where
  "written_files ws = fold (\<lambda>(p, content) files. files(p \<mapsto> content)) ws Map.empty"

text \<open>What one write of the sheet loop is: the path and the content for a sheet.\<close>

definition sheet_file :: "template \<Rightarrow> path \<Rightarrow> string \<times> cell dataframe \<Rightarrow> path \<times> string \<Rightarrow> bool" where
  "sheet_file template output_dir sheet wr =
     (case sheet of (sheet_name, df) \<Rightarrow> case wr of (p, content) \<Rightarrow>
        p = joinpath output_dir (output_name sheet_name) \<and>
        (case iterrows template (columns (fillna df)) (rows (fillna df)) [] of
           Inl _ \<Rightarrow> False
         | Inr messages \<Rightarrow> content = join [NL] messages))"

section \<open>Example inputs\<close>

text \<open>
  A workbook \<open>/data/contacts.xlsx\<close>, a template directory \<open>/app/templates\<close>, a template that
  renders \<open>Hello {{name}}, your time is {{Time}}\<close> with white space around it, a sheet with
  a \<open>Time\<close> column and one without, an environment where everything exists, and one where
  the template directory is missing.
\<close>

definition book_path :: path where
  "book_path = \<lparr>root = ''/'', parts = [''data'', ''contacts.xlsx'']\<rparr>"

definition templates_dir :: path where
  "templates_dir = \<lparr>root = ''/'', parts = [''app'', ''templates'']\<rparr>"

definition hello_template :: template where
  "hello_template context =
     Inr (''  Hello '' @ (case context ''name'' of None \<Rightarrow> [] | Some v \<Rightarrow> v) @
          '', your time is '' @ (case context ''Time'' of None \<Rightarrow> [] | Some v \<Rightarrow> v) @ [NL])"

definition no_time_sheet :: "string \<times> cell dataframe" where
  "no_time_sheet =
     (''Team B'', \<lparr>columns = [''name'', ''email''],
        rows = [\<lambda>col. if col = ''name'' then Some ''Bo'' else if col = ''email'' then Some ''bo@x.org'' else None]\<rparr>)"

definition time_sheet :: "string \<times> cell dataframe" where
  "time_sheet =
     (''Team A'', \<lparr>columns = [''name'', ''email'', ''Time''],
        rows = [\<lambda>col. if col = ''name'' then Some ''Al'' else if col = ''email'' then Some '' al@x.org ''
                      else if col = ''Time'' then Some ''13:30:00'' else None,
                \<lambda>col. if col = ''name'' then Some ''Cy'' else if col = ''Time'' then Some ''9am'' else None]\<rparr>)"

definition good_env :: "(string \<times> cell dataframe) list \<Rightarrow> env" where
  "good_env sheets =
     \<lparr>path_exists = (\<lambda>p. p = book_path \<or> p = templates_dir \<or> p = joinpath templates_dir ''template.txt''
                      \<or> p = parent book_path \<or> p = parent templates_dir \<or> p = parent (parent book_path)),
      TEMPLATE_DIR = templates_dir,
      read_excel = (\<lambda>p. Inr sheets),
      get_template = (\<lambda>f. Inr hello_template),
      open_w = (\<lambda>p. True)\<rparr>"

definition no_folder_env :: env where
  "no_folder_env =
     \<lparr>path_exists = (\<lambda>p. p = book_path \<or> p = parent book_path \<or> p = parent (parent book_path)
                      \<or> p = parent templates_dir \<or> p = parent (parent templates_dir)),
      TEMPLATE_DIR = templates_dir,
      read_excel = (\<lambda>p. Inr [time_sheet]),
      get_template = (\<lambda>f. Inr hello_template),
      open_w = (\<lambda>p. True)\<rparr>"

definition world0 :: world where
  "world0 = \<lparr>stdout = [], writes = []\<rparr>"

text \<open>
  A second sheet with a \<open>Time\<close> column, named \<open>Team_A\<close>; the rows of the two sheets after
  \<open>fillna\<close>; the path both sheets are written to, and the three messages.
\<close>

definition underscore_sheet :: "string \<times> cell dataframe" where
  "underscore_sheet =
     (''Team_A'', \<lparr>columns = [''name'', ''email'', ''Time''],
        rows = [\<lambda>col. if col = ''name'' then Some ''Bo'' else if col = ''email'' then Some ''bo@x.org''
                      else if col = ''Time'' then Some ''09:00:00'' else None]\<rparr>)"

definition row_cy :: "string \<Rightarrow> string" where
  "row_cy col = (if col = ''name'' then ''Cy'' else if col = ''Time'' then ''9am'' else [])"

definition row_bo :: "string \<Rightarrow> string" where
  "row_bo col =
     (if col = ''name'' then ''Bo'' else if col = ''email'' then ''bo@x.org''
      else if col = ''Time'' then ''09:00:00'' else [])"

definition team_a_path :: path where
  "team_a_path = \<lparr>root = ''/'', parts = [''data'', ''emails_output_Team_A.txt'']\<rparr>"

definition al_message :: string where
  "al_message = ''To: al@x.org'' @ [NL, NL] @ ''Hello Al, your time is 01:30 PM'' @ [NL, NL] @
                replicate 60 (CHR ''-'') @ [NL]"

definition cy_message :: string where
  "cy_message = ''To: '' @ [NL, NL] @ ''Hello Cy, your time is 9am'' @ [NL, NL] @
                replicate 60 (CHR ''-'') @ [NL]"

definition bo_message :: string where
  "bo_message = ''To: bo@x.org'' @ [NL, NL] @ ''Hello Bo, your time is 09:00 AM'' @ [NL, NL] @
                replicate 60 (CHR ''-'') @ [NL]"

definition row_al :: "string \<Rightarrow> string" where
  "row_al col =
     (if col = ''name'' then ''Al'' else if col = ''email'' then '' al@x.org ''
      else if col = ''Time'' then ''13:30:00'' else [])"

section \<open>Properties of sanitization\<close>

lemma safe_sheet_name_map: "safe_sheet_name s = map sanitize_char s"
  by (induction s) (simp_all add: safe_sheet_name_def)

lemma keep_sanitize_char: "keep_char (sanitize_char c)"
  by (simp add: sanitize_char_def keep_char_def)

lemma sanitize_char_idem: "sanitize_char (sanitize_char c) = sanitize_char c"
  using keep_sanitize_char [of c] by (simp add: sanitize_char_def [of "sanitize_char c"])

text \<open>
  Claim C7. Sanitizing a sheet name twice gives the same result as sanitizing it once, and
  the name \<open>Q1 Sales!\<close> becomes \<open>Q1_Sales_\<close>, which sanitizes to itself.
\<close>

theorem sanitize_idempotent:
  "safe_sheet_name (safe_sheet_name s) = safe_sheet_name s
   \<and> safe_sheet_name ''Q1 Sales!'' = ''Q1_Sales_''
   \<and> safe_sheet_name ''Q1_Sales_'' = ''Q1_Sales_''"
proof (intro conjI)
  show "safe_sheet_name (safe_sheet_name s) = safe_sheet_name s"
    by (simp add: safe_sheet_name_map sanitize_char_idem)
  show "safe_sheet_name ''Q1 Sales!'' = ''Q1_Sales_''"
    by (simp add: safe_sheet_name_def sanitize_char_def keep_char_def isalnum_def cp_def)
  show "safe_sheet_name ''Q1_Sales_'' = ''Q1_Sales_''"
    by (simp add: safe_sheet_name_def sanitize_char_def keep_char_def isalnum_def cp_def)
qed

text \<open>
  Claim C10. The sanitized name has as many characters as the sheet name, and its character
  at each position is the sheet name's character there when that is alphanumeric, a hyphen
  or an underscore, and an underscore otherwise.
\<close>

theorem sanitize_length_local:
  "length (safe_sheet_name s) = length s
   \<and> (\<forall>i < length s. safe_sheet_name s ! i =
        (if isalnum (s ! i) \<or> s ! i = CHR ''-'' \<or> s ! i = CHR ''_'' then s ! i else CHR ''_''))"
  by (simp add: safe_sheet_name_map sanitize_char_def keep_char_def)

theorem sanitize_length_local_witness:
  "length (safe_sheet_name ''a b/c'') = 5 \<and> safe_sheet_name ''a b/c'' ! 1 = CHR ''_''
   \<and> safe_sheet_name ''a b/c'' ! 2 = CHR ''b''"
proof -
  have a: "isalnum (CHR ''b'')" and b: "\<not> isalnum (CHR '' '')"
    by (simp_all add: isalnum_def cp_def)
  have l: "length ''a b/c'' = 5" by simp
  from sanitize_length_local [of "''a b/c''"] l
  have "safe_sheet_name ''a b/c'' ! 1 =
          (if isalnum (''a b/c'' ! 1) \<or> ''a b/c'' ! 1 = CHR ''-'' \<or> ''a b/c'' ! 1 = CHR ''_''
           then ''a b/c'' ! 1 else CHR ''_'')"
    and "safe_sheet_name ''a b/c'' ! 2 =
          (if isalnum (''a b/c'' ! 2) \<or> ''a b/c'' ! 2 = CHR ''-'' \<or> ''a b/c'' ! 2 = CHR ''_''
           then ''a b/c'' ! 2 else CHR ''_'')"
    and "length (safe_sheet_name ''a b/c'') = 5"
    by simp_all
  then show ?thesis using a b by simp
qed

section \<open>Properties of the time formatter\<close>

lemma char_eq_cp: "(c = d) = (cp c = cp d)"
  by (simp add: cp_def)

lemma isdigit_val: "isdigit c \<Longrightarrow> digit_val c < 10"
  by (auto simp: isdigit_def in_range_def digit_val_def cp_def)

lemma digit_char_val: "isdigit c \<Longrightarrow> digit_char (digit_val c) = c"
  by (simp add: isdigit_def in_range_def digit_char_def digit_val_def cp_def)

lemma int_of_digits_two: "int_of_digits [a, b] = 10 * digit_val a + digit_val b"
  by (simp add: int_of_digits_def)

lemma int_of_digits_one: "int_of_digits [a] = digit_val a"
  by (simp add: int_of_digits_def)

lemma pad2_digits: "isdigit c \<Longrightarrow> isdigit d \<Longrightarrow> pad2 (int_of_digits [c, d]) = [c, d]"
  using isdigit_val [of d] by (simp add: pad2_def int_of_digits_two digit_char_val)

lemma isdigit_not_colon: "isdigit c \<Longrightarrow> c \<noteq> CHR '':''"
  by (auto simp: isdigit_def in_range_def cp_def)

lemma re_char_sound: "(x, r) \<in> set (re_char P s) \<Longrightarrow> (\<exists>a. x = [a] \<and> P a \<and> s = a # r)"
  by (auto simp: re_char_def split: list.splits if_splits)

lemma re_seq_sound:
  "(x, r) \<in> set (re_seq p q s) \<Longrightarrow> \<exists>y z r'. x = y @ z \<and> (y, r') \<in> set (p s) \<and> (z, r) \<in> set (q r')"
  by (auto simp: re_seq_def List.bind_def)

lemma re_alt_sound: "(x, r) \<in> set (re_alt p q s) \<Longrightarrow> (x, r) \<in> set (p s) \<or> (x, r) \<in> set (q s)"
  by (auto simp: re_alt_def)

lemma re_H_sound: "(h, r) \<in> set (re_H s) \<Longrightarrow> s = h @ r \<and> field_ok 23 h"
  unfolding re_H_def
  by (auto dest!: re_alt_sound re_seq_sound re_char_sound
      simp: field_ok_def int_of_digits_def isdigit_def in_range_def digit_val_def cp_def)

lemma re_M_sound: "(h, r) \<in> set (re_M s) \<Longrightarrow> s = h @ r \<and> field_ok 59 h"
  unfolding re_M_def
  by (auto dest!: re_alt_sound re_seq_sound re_char_sound
      simp: field_ok_def int_of_digits_def isdigit_def in_range_def digit_val_def cp_def)

lemma re_S_sound: "(h, r) \<in> set (re_S s) \<Longrightarrow> s = h @ r \<and> field_ok 61 h"
  unfolding re_S_def
  by (auto dest!: re_alt_sound re_seq_sound re_char_sound
      simp: field_ok_def int_of_digits_def isdigit_def in_range_def digit_val_def cp_def)

lemma re_colon_sound: "(c, r) \<in> set (re_colon s) \<Longrightarrow> s = CHR '':'' # r"
  unfolding re_colon_def by (auto dest!: re_char_sound)

lemma format_regex_sound:
  "((h, m, x), rest) \<in> set (format_regex s) \<Longrightarrow>
     s = h @ CHR '':'' # m @ CHR '':'' # x @ rest \<and> field_ok 23 h \<and> field_ok 59 m \<and> field_ok 61 x"
  unfolding format_regex_def List.bind_def
  by (auto dest!: re_H_sound re_M_sound re_S_sound re_colon_sound)

lemma split_sep_nonempty: "split_sep sep s \<noteq> []"
  by (induction s) auto

lemma split_sep_none: "sep \<notin> set s \<Longrightarrow> split_sep sep s = [s]"
  by (induction s) auto

lemma split_sep_append: "sep \<notin> set h \<Longrightarrow> split_sep sep (h @ sep # r) = h # split_sep sep r"
  by (induction h) auto

lemma field_ok_no_colon: "field_ok b f \<Longrightarrow> CHR '':'' \<notin> set f"
  by (auto simp: field_ok_def list_all_iff dest: isdigit_not_colon)

lemma field_ok_mono: "field_ok b f \<Longrightarrow> int_of_digits f \<le> b' \<Longrightarrow> field_ok b' f"
  by (simp add: field_ok_def)

lemma strptime_sound: "strptime s = Inr t \<Longrightarrow> lenient_HMS s"
proof -
  assume a: "strptime s = Inr t"
  then obtain h m x tl where fr: "format_regex s = ((h, m, x), []) # tl"
    and rng: "int_of_digits x \<le> 59"
    by (auto simp: strptime_def Let_def split: list.splits if_splits)
  then have "((h, m, x), []) \<in> set (format_regex s)" by simp
  from format_regex_sound [OF this]
  have s: "s = h @ CHR '':'' # m @ CHR '':'' # x" and fh: "field_ok 23 h" and fm: "field_ok 59 m"
    and fx: "field_ok 61 x" by simp_all
  have fx': "field_ok 59 x" using fx rng by (rule field_ok_mono)
  have "split_sep (CHR '':'') s = [h, m, x]"
    using field_ok_no_colon [OF fh] field_ok_no_colon [OF fm] field_ok_no_colon [OF fx]
    by (simp add: s split_sep_append split_sep_none)
  then show ?thesis using fh fm fx' by (simp add: lenient_HMS_def)
qed

lemma strptime_error: "strptime s = Inl e \<Longrightarrow> e = ValueError"
  by (auto simp: strptime_def Let_def split: list.splits if_splits)

lemma re_H_two:
  "isdigit a \<Longrightarrow> isdigit b \<Longrightarrow> int_of_digits [a, b] \<le> 23 \<Longrightarrow>
     \<exists>rest. re_H (a # b # r) = ([a, b], r) # rest"
  by (auto simp add: re_H_def re_alt_def re_seq_def re_char_def List.bind_def isdigit_def in_range_def
       int_of_digits_def digit_val_def char_eq_cp [of _ "CHR ''2''"] cp_def)

lemma re_M_two:
  "isdigit a \<Longrightarrow> isdigit b \<Longrightarrow> int_of_digits [a, b] \<le> 59 \<Longrightarrow>
     \<exists>rest. re_M (a # b # r) = ([a, b], r) # rest"
  by (auto simp add: re_M_def re_alt_def re_seq_def re_char_def List.bind_def isdigit_def in_range_def
       int_of_digits_def digit_val_def cp_def)

lemma re_S_two:
  "isdigit a \<Longrightarrow> isdigit b \<Longrightarrow> int_of_digits [a, b] \<le> 59 \<Longrightarrow>
     \<exists>rest. re_S (a # b # r) = ([a, b], r) # rest"
  by (auto simp add: re_S_def re_alt_def re_seq_def re_char_def List.bind_def isdigit_def in_range_def
       int_of_digits_def digit_val_def char_eq_cp [of _ "CHR ''6''"] cp_def)

lemma re_one:
  "isdigit a \<Longrightarrow> (case r of [] \<Rightarrow> True | b # _ \<Rightarrow> \<not> isdigit b) \<Longrightarrow>
     re_H (a # r) = [([a], r)] \<and> re_M (a # r) = [([a], r)] \<and> re_S (a # r) = [([a], r)]"
  by (auto simp add: re_H_def re_M_def re_S_def re_alt_def re_seq_def re_char_def List.bind_def
       isdigit_def in_range_def cp_def split: list.splits)

lemma re_colon_Cons: "re_colon (CHR '':'' # r) = [('':'', r)]"
  by (simp add: re_colon_def re_char_def)

lemma not_isdigit_colon: "\<not> isdigit (CHR '':'')"
  by (simp add: isdigit_def in_range_def cp_def)

lemma field_cases:
  "field_ok b f \<Longrightarrow> (\<exists>a. f = [a] \<and> isdigit a) \<or> (\<exists>a c. f = [a, c] \<and> isdigit a \<and> isdigit c \<and> int_of_digits [a, c] \<le> b)"
  by (cases f; cases "tl f"; cases "tl (tl f)") (auto simp: field_ok_def)

lemma re_H_field: "field_ok 23 h \<Longrightarrow> \<exists>rest. re_H (h @ CHR '':'' # r) = (h, CHR '':'' # r) # rest"
  using re_one [of _ "CHR '':'' # r"] re_H_two [of _ _ "CHR '':'' # r"]
  by (auto dest!: field_cases simp: not_isdigit_colon)

lemma re_M_field: "field_ok 59 h \<Longrightarrow> \<exists>rest. re_M (h @ CHR '':'' # r) = (h, CHR '':'' # r) # rest"
  using re_one [of _ "CHR '':'' # r"] re_M_two [of _ _ "CHR '':'' # r"]
  by (auto dest!: field_cases simp: not_isdigit_colon)

lemma re_S_field: "field_ok 59 h \<Longrightarrow> \<exists>rest. re_S h = (h, []) # rest"
  using re_one [of _ "[]"] re_S_two [of _ _ "[]"]
  by (auto dest!: field_cases)

lemma format_regex_fields:
  assumes "field_ok 23 h" "field_ok 59 m" "field_ok 59 x"
  shows "\<exists>rest. format_regex (h @ CHR '':'' # m @ CHR '':'' # x) = ((h, m, x), []) # rest"
proof -
  obtain r1 where 1: "re_H (h @ CHR '':'' # m @ CHR '':'' # x) = (h, CHR '':'' # m @ CHR '':'' # x) # r1"
    using re_H_field [OF assms(1)] by blast
  obtain r2 where 2: "re_M (m @ CHR '':'' # x) = (m, CHR '':'' # x) # r2"
    using re_M_field [OF assms(2)] by blast
  obtain r3 where 3: "re_S x = (x, []) # r3"
    using re_S_field [OF assms(3)] by blast
  show ?thesis
    by (simp add: format_regex_def List.bind_def 1 2 3 re_colon_Cons)
qed

lemma split_sep_join: "join [sep] (split_sep sep s) = s"
proof (induction s)
  case Nil
  then show ?case by simp
next
  case (Cons c s)
  then show ?case
    using split_sep_nonempty [of sep s]
    by (cases "split_sep sep s"; cases "tl (split_sep sep s)") auto
qed

lemma strptime_complete:
  assumes "lenient_HMS s"
  shows "\<exists>h m x. strptime s = Inr (int_of_digits h, int_of_digits m, int_of_digits x) \<and> split_sep (CHR '':'') s = [h, m, x]"
proof -
  from assms obtain h m x where sp: "split_sep (CHR '':'') s = [h, m, x]"
    and f: "field_ok 23 h" "field_ok 59 m" "field_ok 59 x"
    by (auto simp: lenient_HMS_def split: list.splits)
  have "s = join '':'' (split_sep (CHR '':'') s)" by (simp add: split_sep_join)
  then have s: "s = h @ CHR '':'' # m @ CHR '':'' # x" by (simp add: sp)
  obtain rest where "format_regex s = ((h, m, x), []) # rest"
    using format_regex_fields [OF f] s by blast
  then show ?thesis using f sp by (simp add: strptime_def field_ok_def)
qed

lemma format_time_str_total: "\<exists>r. format_time (PyStr s) = Inr r"
  by (auto simp: format_time_def split: sum.splits dest: strptime_error)

lemma valid_strptime:
  assumes "valid_HHMMSS s"
  shows "strptime s = Inr (int_of_digits (take 2 s), int_of_digits (take 2 (drop 3 s)), int_of_digits (drop 6 s))
     \<and> pad2 (int_of_digits (take 2 (drop 3 s))) = take 2 (drop 3 s)"
proof -
  from assms obtain a b c d e f where s: "s = [a, b, CHR '':'', c, d, CHR '':'', e, f]"
    and dg: "isdigit a" "isdigit b" "isdigit c" "isdigit d" "isdigit e" "isdigit f"
    and rg: "int_of_digits [a, b] \<le> 23" "int_of_digits [c, d] \<le> 59" "int_of_digits [e, f] \<le> 59"
    by (auto elim!: valid_HHMMSS.elims)
  have "field_ok 23 [a, b]" "field_ok 59 [c, d]" "field_ok 59 [e, f]"
    using dg rg by (simp_all add: field_ok_def)
  from format_regex_fields [OF this]
  obtain rest where "format_regex s = (([a, b], [c, d], [e, f]), []) # rest"
    by (auto simp: s)
  then show ?thesis using rg dg by (simp add: strptime_def s pad2_digits)
qed

lemma hour12_range: "1 \<le> (if h mod 12 = 0 then 12 else h mod 12) \<and> (if h mod 12 = 0 then 12 else h mod 12) \<le> (12::nat)"
  by (simp add: Suc_leI less_imp_le)

text \<open>
  Claim C2. Called with \<open>None\<close>, with any string (the empty one too) or with a time-like
  object, \<open>format_time\<close> returns a string: no exception leaves it.
\<close>

theorem format_time_returns_string:
  "v \<noteq> PyOther \<Longrightarrow> \<exists>r. format_time v = Inr r"
  using format_time_str_total by (cases v) (auto simp: format_time_def)

theorem format_time_returns_string_witness:
  "PyTime 15 7 0 \<noteq> PyOther \<and> (\<exists>r. format_time (PyTime 15 7 0) = Inr r)"
  using format_time_returns_string [of "PyTime 15 7 0"] by simp

text \<open>
  Claim C5. On a valid 24-hour \<open>HH:MM:SS\<close> string \<open>format_time\<close> returns the hour on the
  12-hour clock as two digits, between 01 and 12, a colon, the two minute digits of the
  input, a space and \<open>AM\<close> for hours below 12, \<open>PM\<close> otherwise. So \<open>09:00:00\<close> gives
  \<open>09:00 AM\<close>, \<open>13:30:00\<close> gives \<open>01:30 PM\<close> and \<open>00:00:00\<close> gives \<open>12:00 AM\<close>.
\<close>

theorem format_time_valid:
  "(valid_HHMMSS s \<longrightarrow>
      (let h = int_of_digits (take 2 s); h12 = (if h mod 12 = 0 then 12 else h mod 12)
       in format_time (PyStr s) =
            Inr (pad2 h12 @ '':'' @ take 2 (drop 3 s) @ (if h < 12 then '' AM'' else '' PM''))
          \<and> 1 \<le> h12 \<and> h12 \<le> 12))
   \<and> format_time (PyStr ''09:00:00'') = Inr ''09:00 AM''
   \<and> format_time (PyStr ''13:30:00'') = Inr ''01:30 PM''
   \<and> format_time (PyStr ''00:00:00'') = Inr ''12:00 AM''"
proof (intro conjI impI)
  assume v: "valid_HHMMSS s"
  then have "s \<noteq> []" by auto
  then show "let h = int_of_digits (take 2 s); h12 = (if h mod 12 = 0 then 12 else h mod 12)
       in format_time (PyStr s) =
            Inr (pad2 h12 @ '':'' @ take 2 (drop 3 s) @ (if h < 12 then '' AM'' else '' PM''))
          \<and> 1 \<le> h12 \<and> h12 \<le> 12"
    using valid_strptime [OF v] hour12_range [of "int_of_digits (take 2 s)"]
    by (simp add: format_time_def strftime_def Let_def)
next
  show "format_time (PyStr ''09:00:00'') = Inr ''09:00 AM''" by code_simp
  show "format_time (PyStr ''13:30:00'') = Inr ''01:30 PM''" by code_simp
  show "format_time (PyStr ''00:00:00'') = Inr ''12:00 AM''" by code_simp
qed

theorem format_time_valid_witness:
  "valid_HHMMSS ''23:59:59'' \<and> format_time (PyStr ''23:59:59'') = Inr ''11:59 PM''"
proof -
  have v: "valid_HHMMSS ''23:59:59''" by code_simp
  have "pad2 11 = ''11''" "int_of_digits ''23'' = 23" by code_simp+
  then show ?thesis using v format_time_valid [of "''23:59:59''"]
    by (simp add: Let_def)
qed

lemma latin1_unchanged: "\<not> lenient_HMS s \<Longrightarrow> format_time (PyStr s) = Inr s"
  using strptime_sound [of s] strptime_error [of s]
  by (auto simp: format_time_def split: sum.splits)

section \<open>Properties of the time formatter on all Unicode strings\<close>

lemma ascii_decimal:
  "decimal_table D \<Longrightarrow> cp (CHR ''0'') \<le> a \<Longrightarrow> a \<le> cp (CHR ''9'') \<Longrightarrow> D a = Some (a - 48)"
proof -
  assume t: "decimal_table D" and a: "cp (CHR ''0'') \<le> a" "a \<le> cp (CHR ''9'')"
  then have "a - 48 < 10" by (simp add: cp_def)
  with t have "D (cp (CHR ''0'') + (a - 48)) = Some (a - 48)" by (simp add: decimal_table_def)
  with a show ?thesis by (simp add: cp_def)
qed

lemma udigit_not_colon: "decimal_table D \<Longrightarrow> udigit D a \<Longrightarrow> a \<noteq> cp (CHR '':'')"
  by (auto simp: decimal_table_def udigit_def)

lemma udigit_value: "decimal_table D \<Longrightarrow> udigit D a \<Longrightarrow> \<exists>d<10. D a = Some d"
  by (auto simp: decimal_table_def udigit_def)

lemma ascii_udigit: "decimal_table D \<Longrightarrow> cp (CHR ''0'') \<le> a \<Longrightarrow> a \<le> cp (CHR ''9'') \<Longrightarrow> udigit D a"
  by (simp add: udigit_def ascii_decimal)

lemma hour_no_colon: "decimal_table D \<Longrightarrow> hour_field D h \<Longrightarrow> cp (CHR '':'') \<notin> set h"
  by (cases "(D, h)" rule: hour_field.cases)
     (auto simp: between_def cp_def dest: udigit_not_colon [unfolded cp_def])

lemma minsec_no_colon: "decimal_table D \<Longrightarrow> minsec_field D h \<Longrightarrow> cp (CHR '':'') \<notin> set h"
  by (cases "(D, h)" rule: minsec_field.cases)
     (auto simp: between_def cp_def dest: udigit_not_colon [unfolded cp_def])

lemma ure_H_sound: "(h, r) \<in> set (ure_H D s) \<Longrightarrow> s = h @ r \<and> hour_field D h"
  unfolding ure_H_def
  by (auto dest!: re_alt_sound re_seq_sound re_char_sound)

lemma ure_M_sound: "(h, r) \<in> set (ure_M D s) \<Longrightarrow> s = h @ r \<and> minsec_field D h"
  unfolding ure_M_def
  by (auto dest!: re_alt_sound re_seq_sound re_char_sound)

lemma ure_S_sound:
  "(h, r) \<in> set (ure_S D s) \<Longrightarrow>
     s = h @ r \<and> (minsec_field D h \<or> (\<exists>b. h = [cp (CHR ''6''), b] \<and> between (CHR ''0'') (CHR ''1'') b))"
  unfolding ure_S_def
  by (auto dest!: re_alt_sound re_seq_sound re_char_sound)

lemma ure_colon_sound: "(c, r) \<in> set (ure_colon s) \<Longrightarrow> s = cp (CHR '':'') # r"
  unfolding ure_colon_def by (auto dest!: re_char_sound)

lemma uformat_regex_sound:
  "((h, m, x), rest) \<in> set (uformat_regex D s) \<Longrightarrow>
     s = h @ cp (CHR '':'') # m @ cp (CHR '':'') # x @ rest \<and> hour_field D h \<and> minsec_field D m
     \<and> (minsec_field D x \<or> (\<exists>b. x = [cp (CHR ''6''), b] \<and> between (CHR ''0'') (CHR ''1'') b))"
  unfolding uformat_regex_def List.bind_def
  by (auto dest!: ure_H_sound ure_M_sound ure_S_sound ure_colon_sound)

lemma sixty_rejected:
  "decimal_table D \<Longrightarrow> between (CHR ''0'') (CHR ''1'') b \<Longrightarrow> 59 < uint D [cp (CHR ''6''), b]"
proof -
  assume t: "decimal_table D" and b: "between (CHR ''0'') (CHR ''1'') b"
  have "D (cp (CHR ''6'')) = Some 6" using ascii_decimal [OF t, of "cp (CHR ''6'')"] by (simp add: cp_def)
  moreover have "D b = Some (b - 48)" using ascii_decimal [OF t, of b] b by (simp add: between_def cp_def)
  ultimately show ?thesis by (simp add: uint_def)
qed

lemma ustrptime_sound:
  assumes t: "decimal_table D" and a: "ustrptime D s = Inr dt"
  shows "accepted_HMS D s"
proof -
  from a obtain h m x tl where fr: "uformat_regex D s = ((h, m, x), []) # tl"
    and rng: "uint D x \<le> 59"
    by (auto simp: ustrptime_def Let_def split: list.splits if_splits)
  then have "((h, m, x), []) \<in> set (uformat_regex D s)" by simp
  from uformat_regex_sound [OF this]
  have s: "s = h @ cp (CHR '':'') # m @ cp (CHR '':'') # x" and fh: "hour_field D h"
    and fm: "minsec_field D m"
    and fx: "minsec_field D x \<or> (\<exists>b. x = [cp (CHR ''6''), b] \<and> between (CHR ''0'') (CHR ''1'') b)"
    by simp_all
  have fx': "minsec_field D x"
    using fx rng sixty_rejected [OF t] by fastforce
  have "split_sep (cp (CHR '':'')) s = [h, m, x]"
    using hour_no_colon [OF t fh] minsec_no_colon [OF t fm] minsec_no_colon [OF t fx']
    by (simp add: s split_sep_append split_sep_none)
  then show ?thesis using fh fm fx' by (simp add: accepted_HMS_def)
qed

lemma ustrptime_error: "ustrptime D s = Inl e \<Longrightarrow> e = ValueError"
  by (auto simp: ustrptime_def Let_def split: list.splits if_splits)

lemma rejected_unchanged:
  "decimal_table D \<Longrightarrow> \<not> accepted_HMS D s \<Longrightarrow> uformat_time D s = Inr s"
  using ustrptime_sound [of D s] ustrptime_error [of D s]
  by (auto simp: uformat_time_def split: sum.splits)

lemma unicode_decimal_table: "decimal_table unicode_decimal"
proof -
  have 1: "unicode_decimal (cp (CHR ''0'') + k) = Some k" if "k < 10" for k
    using that by (simp add: unicode_decimal_def decimal_zeros_def cp_def)
  have 2: "d < 10" if "unicode_decimal c = Some d" for c d
    using that by (auto simp: unicode_decimal_def find_Some_iff split: option.splits)
  have 3: "unicode_decimal (cp (CHR '':'')) = None"
    by (simp add: unicode_decimal_def decimal_zeros_def cp_def)
  from 1 2 3 show ?thesis unfolding decimal_table_def by blast
qed




text \<open>
  The strings of that form are parsed and formatted, so the form is exact; one in
  Arabic-Indic digits is an example.
\<close>

lemma hour_value: "decimal_table D \<Longrightarrow> hour_field D h \<Longrightarrow> uint D h \<le> 23"
proof (cases "(D, h)" rule: hour_field.cases)
  case (1 D' a)
  assume "decimal_table D" "hour_field D h"
  with 1 show ?thesis using udigit_value [of D a] by (auto simp: uint_def)
next
  case (2 D' a b)
  assume t: "decimal_table D" and h: "hour_field D h"
  show ?thesis
  proof (cases "a = cp (CHR ''2'')")
    case True
    with 2 h have b: "between (CHR ''0'') (CHR ''3'') b" by (auto simp: between_def cp_def)
    have "D a = Some 2" using ascii_decimal [OF t, of a] True by (simp add: cp_def)
    moreover have "D b = Some (b - 48)" using ascii_decimal [OF t, of b] b by (simp add: between_def cp_def)
    ultimately show ?thesis using 2 b by (auto simp: uint_def between_def cp_def)
  next
    case False
    with 2 h have a: "between (CHR ''0'') (CHR ''1'') a" and b: "udigit D b" by auto
    have "D a = Some (a - 48)" using ascii_decimal [OF t, of a] a by (simp add: between_def cp_def)
    moreover obtain d where "d < 10" "D b = Some d" using udigit_value [OF t b] by blast
    ultimately show ?thesis using 2 a by (auto simp: uint_def between_def cp_def)
  qed
qed simp_all

lemma minsec_value: "decimal_table D \<Longrightarrow> minsec_field D h \<Longrightarrow> uint D h \<le> 59"
proof (cases "(D, h)" rule: minsec_field.cases)
  case (1 D' a)
  assume "decimal_table D" "minsec_field D h"
  with 1 show ?thesis using udigit_value [of D a] by (auto simp: uint_def)
next
  case (2 D' a b)
  assume t: "decimal_table D" and h: "minsec_field D h"
  with 2 have a: "between (CHR ''0'') (CHR ''5'') a" and b: "udigit D b" by auto
  have "D a = Some (a - 48)" using ascii_decimal [OF t, of a] a by (simp add: between_def cp_def)
  moreover obtain d where "d < 10" "D b = Some d" using udigit_value [OF t b] by blast
  ultimately show ?thesis using 2 a by (auto simp: uint_def between_def cp_def)
qed simp_all

lemma not_udigit_colon: "decimal_table D \<Longrightarrow> \<not> udigit D (cp (CHR '':''))"
  by (simp add: decimal_table_def udigit_def)

lemma ure_H_field:
  "decimal_table D \<Longrightarrow> hour_field D h \<Longrightarrow>
     \<exists>rest. ure_H D (h @ cp (CHR '':'') # r) = (h, cp (CHR '':'') # r) # rest"
  by (cases "(D, h)" rule: hour_field.cases)
     (auto simp: ure_H_def re_alt_def re_seq_def re_char_def List.bind_def between_def
        dest: not_udigit_colon simp: cp_def)

lemma ure_M_field:
  "decimal_table D \<Longrightarrow> minsec_field D h \<Longrightarrow>
     \<exists>rest. ure_M D (h @ cp (CHR '':'') # r) = (h, cp (CHR '':'') # r) # rest"
  by (cases "(D, h)" rule: minsec_field.cases)
     (auto simp: ure_M_def re_alt_def re_seq_def re_char_def List.bind_def between_def
        dest: not_udigit_colon simp: cp_def)

lemma ure_S_field:
  "minsec_field D h \<Longrightarrow> \<exists>rest. ure_S D h = (h, []) # rest"
  by (cases "(D, h)" rule: minsec_field.cases)
     (auto simp: ure_S_def re_alt_def re_seq_def re_char_def List.bind_def between_def cp_def)

lemma ure_colon_Cons: "ure_colon (cp (CHR '':'') # r) = [([cp (CHR '':'')], r)]"
  by (simp add: ure_colon_def re_char_def)

lemma uformat_regex_fields:
  assumes "decimal_table D" "hour_field D h" "minsec_field D m" "minsec_field D x"
  shows "\<exists>rest. uformat_regex D (h @ cp (CHR '':'') # m @ cp (CHR '':'') # x) = ((h, m, x), []) # rest"
proof -
  obtain r1 where 1: "ure_H D (h @ cp (CHR '':'') # m @ cp (CHR '':'') # x) = (h, cp (CHR '':'') # m @ cp (CHR '':'') # x) # r1"
    using ure_H_field [OF assms(1,2)] by blast
  obtain r2 where 2: "ure_M D (m @ cp (CHR '':'') # x) = (m, cp (CHR '':'') # x) # r2"
    using ure_M_field [OF assms(1,3)] by blast
  obtain r3 where 3: "ure_S D x = (x, []) # r3"
    using ure_S_field [OF assms(4)] by blast
  show ?thesis
    by (simp add: uformat_regex_def List.bind_def 1 2 3 ure_colon_Cons)
qed

lemma accepted_reformatted:
  assumes t: "decimal_table D" and a: "accepted_HMS D s"
  shows "\<exists>h m x. split_sep (cp (CHR '':'')) s = [h, m, x]
           \<and> uformat_time D s = Inr (map cp (strftime (uint D h, uint D m, uint D x)))"
proof -
  from a obtain h m x where sp: "split_sep (cp (CHR '':'')) s = [h, m, x]"
    and f: "hour_field D h" "minsec_field D m" "minsec_field D x"
    by (auto simp: accepted_HMS_def split: list.splits)
  have "s = join [cp (CHR '':'')] (split_sep (cp (CHR '':'')) s)" by (simp add: split_sep_join)
  then have s: "s = h @ cp (CHR '':'') # m @ cp (CHR '':'') # x" by (simp add: sp)
  obtain rest where "uformat_regex D s = ((h, m, x), []) # rest"
    using uformat_regex_fields [OF t f] s by blast
  then have "ustrptime D s = Inr (uint D h, uint D m, uint D x)"
    using hour_value [OF t f(1)] minsec_value [OF t f(2)] minsec_value [OF t f(3)]
    by (simp add: ustrptime_def)
  moreover have "s \<noteq> []" using s by simp
  ultimately show ?thesis using sp by (simp add: uformat_time_def)
qed

lemma arabic_indic_reformatted:
  "uformat_time unicode_decimal [1633, 58, 1634, 58, 1635] = Inr (map cp ''01:02 AM'')"
proof -
  have a: "accepted_HMS unicode_decimal [1633, 58, 1634, 58, 1635]"
    by (simp add: accepted_HMS_def cp_def udigit_def unicode_decimal_def decimal_zeros_def)
  have u: "uint unicode_decimal [1633] = 1" "uint unicode_decimal [1634] = 2" "uint unicode_decimal [1635] = 3"
    by (simp_all add: uint_def unicode_decimal_def decimal_zeros_def)
  have f: "strftime (1, 2, 3) = ''01:02 AM''" by code_simp
  from accepted_reformatted [OF unicode_decimal_table a] obtain h m x where
    sp: "split_sep (cp (CHR '':'')) [1633, 58, 1634, 58, 1635] = [h, m, x]"
    and r: "uformat_time unicode_decimal [1633, 58, 1634, 58, 1635] =
              Inr (map cp (strftime (uint unicode_decimal h, uint unicode_decimal m, uint unicode_decimal x)))"
    by blast
  from sp have "h = [1633]" "m = [1634]" "x = [1635]" by (simp_all add: cp_def)
  with r show ?thesis by (simp only: u f)
qed

text \<open>
  On strings of code points up to 255 the two models of the formatter agree.
\<close>

lemma cp_less: "cp c < 256"
  by (simp add: cp_def)

lemma cp_eq_iff: "(cp a = cp b) = (a = b)"
  by (simp add: cp_def)

lemma udigit_cp: "decimal_table D \<Longrightarrow> ascii_below_256 D \<Longrightarrow> udigit D (cp c) = isdigit c"
  using cp_less [of c] ascii_udigit [of D "cp c"]
  by (auto simp: ascii_below_256_def udigit_def isdigit_def in_range_def)

lemma udigit_raw:
  "decimal_table D \<Longrightarrow> ascii_below_256 D \<Longrightarrow>
     udigit D (of_char c) = (48 \<le> (of_char c :: nat) \<and> (of_char c :: nat) \<le> 57)"
  using udigit_cp [of D c] by (simp add: isdigit_def in_range_def cp_def)

lemma digit_value_cp: "decimal_table D \<Longrightarrow> isdigit c \<Longrightarrow> D (cp c) = Some (digit_val c)"
  using ascii_decimal [of D "cp c"] by (simp add: isdigit_def in_range_def digit_val_def)

lemma split_sep_cp: "split_sep (cp sep) (map cp s) = map (map cp) (split_sep sep s)"
  using split_sep_nonempty [of sep]
  by (induction s) (auto simp: cp_eq_iff hd_map map_tl)

lemma uint_cp_aux:
  "decimal_table D \<Longrightarrow> list_all isdigit h \<Longrightarrow>
     foldl (\<lambda>acc c. 10 * acc + (case D c of None \<Rightarrow> 0 | Some d \<Rightarrow> d)) n (map cp h) =
     foldl (\<lambda>acc c. 10 * acc + digit_val c) n h"
  by (induction h arbitrary: n) (simp_all add: digit_value_cp)

lemma uint_cp: "decimal_table D \<Longrightarrow> list_all isdigit h \<Longrightarrow> uint D (map cp h) = int_of_digits h"
  by (simp add: uint_def int_of_digits_def uint_cp_aux)

lemma hour_field_cp:
  "decimal_table D \<Longrightarrow> ascii_below_256 D \<Longrightarrow> hour_field D (map cp h) = field_ok 23 h"
  by (cases h; cases "tl h"; cases "tl (tl h)")
     (auto simp: udigit_raw field_ok_def int_of_digits_def digit_val_def isdigit_def in_range_def
        between_def cp_def)

lemma minsec_field_cp:
  "decimal_table D \<Longrightarrow> ascii_below_256 D \<Longrightarrow> minsec_field D (map cp h) = field_ok 59 h"
  by (cases h; cases "tl h"; cases "tl (tl h)")
     (auto simp: udigit_raw field_ok_def int_of_digits_def digit_val_def isdigit_def in_range_def
        between_def cp_def)

lemma accepted_cp:
  "decimal_table D \<Longrightarrow> ascii_below_256 D \<Longrightarrow> accepted_HMS D (map cp s) = lenient_HMS s"
  by (cases "split_sep (CHR '':'') s"; cases "tl (split_sep (CHR '':'') s)";
      cases "tl (tl (split_sep (CHR '':'') s))"; cases "tl (tl (tl (split_sep (CHR '':'') s)))")
     (auto simp: accepted_HMS_def lenient_HMS_def split_sep_cp hour_field_cp minsec_field_cp)

lemma models_agree:
  assumes t: "decimal_table D" and l: "ascii_below_256 D"
  shows "uformat_time D (map cp s) = map_sum id (map cp) (format_time (PyStr s))"
proof (cases "lenient_HMS s")
  case False
  then have "\<not> accepted_HMS D (map cp s)" by (simp add: accepted_cp [OF t l])
  from rejected_unchanged [OF t this] latin1_unchanged [OF False] show ?thesis by simp
next
  case True
  from strptime_complete [OF True] obtain h m x where
    p: "strptime s = Inr (int_of_digits h, int_of_digits m, int_of_digits x)"
    and sp: "split_sep (CHR '':'') s = [h, m, x]" by blast
  from True sp have d: "list_all isdigit h" "list_all isdigit m" "list_all isdigit x"
    by (simp_all add: lenient_HMS_def field_ok_def)
  have ne: "s \<noteq> []" using sp by auto
  have "accepted_HMS D (map cp s)" using True by (simp add: accepted_cp [OF t l])
  from accepted_reformatted [OF t this]
  have "uformat_time D (map cp s) =
          Inr (map cp (strftime (uint D (map cp h), uint D (map cp m), uint D (map cp x))))"
    by (simp add: split_sep_cp sp)
  then show ?thesis using p ne by (simp add: uint_cp [OF t] d format_time_def)
qed

lemma unicode_ascii_below_256: "ascii_below_256 unicode_decimal"
  by (auto simp: ascii_below_256_def unicode_decimal_def decimal_zeros_def cp_def find_Some_iff
      split: option.splits)

section \<open>Properties of the row loop\<close>

lemma dom_make_context_aux:
  "dom (fold (\<lambda>col context. context(col \<mapsto> row col)) cols m) = dom m \<union> set cols"
  by (induction cols arbitrary: m) auto

lemma dom_make_context: "dom (make_context cols row) = set cols"
  by (simp add: make_context_def dom_make_context_aux)

lemma make_context_aux:
  "fold (\<lambda>col context. context(col \<mapsto> row col)) cols m k = (if k \<in> set cols then Some (row k) else m k)"
  by (induction cols arbitrary: m) auto

lemma make_context_apply: "make_context cols row k = (if k \<in> set cols then Some (row k) else None)"
  by (simp add: make_context_def make_context_aux)

lemma render_row_no_time:
  "''Time'' \<notin> dom (make_context cols row) \<Longrightarrow> render_row template cols row messages = Inr messages"
  by (auto simp: render_row_def Let_def split: option.splits)

lemma iterrows_no_time:
  "''Time'' \<notin> set cols \<Longrightarrow> iterrows template cols rws messages = Inr messages"
  by (induction rws) (simp_all add: render_row_no_time dom_make_context)

text \<open>
  Claim C1. When the context of a row has no \<open>Time\<close> key, the row adds nothing to the list
  of messages, whatever the template is (it is not rendered); so a sheet without a \<open>Time\<close>
  column has no message at all.
\<close>

theorem no_time_no_message:
  "(''Time'' \<notin> dom (make_context cols row) \<longrightarrow> render_row template cols row messages = Inr messages)
   \<and> (''Time'' \<notin> set cols \<longrightarrow> iterrows template cols rws [] = Inr [])"
  by (simp add: render_row_no_time iterrows_no_time)

theorem no_time_no_message_witness:
  "''Time'' \<notin> dom (make_context [''name'', ''email''] (\<lambda>col. ''x''))
   \<and> render_row hello_template [''name'', ''email''] (\<lambda>col. ''x'') [] = Inr []
   \<and> ''Time'' \<notin> set [''name'', ''email'']
   \<and> iterrows hello_template [''name'', ''email''] [\<lambda>col. ''x'', \<lambda>col. ''y''] [] = Inr []"
proof -
  have a: "''Time'' \<notin> dom (make_context [''name'', ''email''] (\<lambda>col. ''x''))"
    by (simp add: dom_make_context)
  have b: "''Time'' \<notin> set [''name'', ''email'']" by simp
  from no_time_no_message [of "[''name'', ''email'']" "\<lambda>col. ''x''" hello_template "[]" "[\<lambda>col. ''x'', \<lambda>col. ''y'']"] a b
  show ?thesis by blast
qed

lemma ft1330: "format_time (PyStr ''13:30:00'') = Inr ''01:30 PM''" by code_simp

lemma strip_email: "strip '' al@x.org '' = ''al@x.org''"
  by (simp add: strip_def isspace_def cp_def)

lemma strip_hello: "strip (''  Hello Al, your time is 01:30 PM'' @ [NL]) = ''Hello Al, your time is 01:30 PM''"
  by (simp add: strip_def isspace_def cp_def NL_def)

lemma render_row_al: "render_row hello_template [''name'', ''email'', ''Time''] row_al [] =
   Inr [''To: al@x.org'' @ [NL, NL] @ ''Hello Al, your time is 01:30 PM'' @ [NL, NL] @ replicate 60 (CHR ''-'') @ [NL]]"
proof -
  have c: "make_context [''name'', ''email'', ''Time''] row_al ''Time'' = Some ''13:30:00''"
    by (simp add: make_context_apply row_al_def)
  have n: "((make_context [''name'', ''email'', ''Time''] row_al)(''Time'' \<mapsto> ''01:30 PM'')) ''name'' = Some ''Al''"
    "((make_context [''name'', ''email'', ''Time''] row_al)(''Time'' \<mapsto> ''01:30 PM'')) ''Time'' = Some ''01:30 PM''"
    by (simp_all add: make_context_apply row_al_def)
  have h: "hello_template ((make_context [''name'', ''email'', ''Time''] row_al)(''Time'' \<mapsto> ''01:30 PM''))
      = Inr (''  Hello Al, your time is 01:30 PM'' @ [NL])"
    unfolding hello_template_def n by simp
  have e: "row_get [''name'', ''email'', ''Time''] row_al ''email'' [] = '' al@x.org ''"
    by (simp add: row_get_def row_al_def)
  show ?thesis
    unfolding render_row_def Let_def c option.case ft1330 sum.case h e strip_hello strip_email message_block_def
    by simp
qed

text \<open>
  Claim C9. When the context of a row has a \<open>Time\<close> key and the row is rendered, the message
  appended is \<open>To:\<close> and a space, the stripped \<open>email\<close> cell (the empty string without
  such a column), an empty line, the stripped text the template renders on the context with
  the formatted time, an empty line, and a line of 60 hyphens.
\<close>

theorem rendered_message_block:
  assumes "render_row template cols row messages = Inr messages'"
    and "''Time'' \<in> dom (make_context cols row)"
  shows "\<exists>t out. format_time (PyStr (row ''Time'')) = Inr t
           \<and> template ((make_context cols row)(''Time'' \<mapsto> t)) = Inr out
           \<and> messages' = messages @
               [''To: '' @ strip (if ''email'' \<in> set cols then row ''email'' else []) @ [NL, NL] @
                strip out @ [NL, NL] @ replicate 60 (CHR ''-'') @ [NL]]"
  using assms
  by (auto simp: render_row_def Let_def make_context_apply dom_make_context row_get_def message_block_def
      split: option.splits sum.splits if_splits)

theorem rendered_message_block_witness:
  "render_row hello_template [''name'', ''email'', ''Time''] row_al [] =
     Inr [''To: al@x.org'' @ [NL, NL] @ ''Hello Al, your time is 01:30 PM'' @ [NL, NL] @ replicate 60 (CHR ''-'') @ [NL]]
   \<and> ''Time'' \<in> dom (make_context [''name'', ''email'', ''Time''] row_al)
   \<and> (\<exists>t out. format_time (PyStr (row_al ''Time'')) = Inr t
           \<and> hello_template ((make_context [''name'', ''email'', ''Time''] row_al)(''Time'' \<mapsto> t)) = Inr out
           \<and> [''To: al@x.org'' @ [NL, NL] @ ''Hello Al, your time is 01:30 PM'' @ [NL, NL] @ replicate 60 (CHR ''-'') @ [NL]] = [] @
               [''To: '' @ strip (if ''email'' \<in> set [''name'', ''email'', ''Time''] then row_al ''email'' else []) @ [NL, NL] @
                strip out @ [NL, NL] @ replicate 60 (CHR ''-'') @ [NL]])"
proof -
  have d: "''Time'' \<in> dom (make_context [''name'', ''email'', ''Time''] row_al)"
    by (simp add: dom_make_context)
  from rendered_message_block [OF render_row_al d] render_row_al d show ?thesis by blast
qed

section \<open>Properties of a run\<close>

text \<open>When every input exists, the template renders every context and every output file can be
  opened, the program returns.\<close>

lemma render_row_total:
  assumes "\<forall>c. \<exists>out. template c = Inr out"
  shows "\<exists>ms. render_row template cols row messages = Inr ms"
proof (cases "make_context cols row ''Time''")
  case None
  then show ?thesis by (simp add: render_row_def)
next
  case (Some t)
  obtain t' where t': "format_time (PyStr t) = Inr t'"
    using format_time_str_total by blast
  obtain out where "template ((make_context cols row)(''Time'' \<mapsto> t')) = Inr out"
    using assms by blast
  with Some t' show ?thesis by (simp add: render_row_def Let_def)
qed

lemma iterrows_total:
  assumes "\<forall>c. \<exists>out. template c = Inr out"
  shows "\<exists>ms. iterrows template cols rws messages = Inr ms"
proof (induction rws arbitrary: messages)
  case Nil
  then show ?case by simp
next
  case (Cons row rws)
  obtain ms where "render_row template cols row messages = Inr ms"
    using render_row_total [OF assms] by blast
  with Cons show ?case by simp
qed

lemma process_sheet_total:
  assumes "\<forall>c. \<exists>out. template c = Inr out" and "\<forall>p. open_w e p"
  shows "\<exists>n' w'. process_sheet e template d sheet n w = (Inr n', w')"
proof -
  obtain sheet_name df where s: "sheet = (sheet_name, df)" by (cases sheet)
  obtain ms where "iterrows template (columns (fillna df)) (rows (fillna df)) [] = Inr ms"
    using iterrows_total [OF assms(1)] by blast
  then show ?thesis using assms(2) by (simp add: process_sheet_def s Let_def)
qed

lemma sheets_loop_returns:
  assumes "\<forall>c. \<exists>out. template c = Inr out" and "\<forall>p. open_w e p"
  shows "\<exists>n' w'. sheets_loop e template d sheets n w = (Inr n', w')"
proof (induction sheets arbitrary: n w)
  case Nil
  then show ?case by simp
next
  case (Cons sheet sheets)
  obtain n1 w1 where "process_sheet e template d sheet n w = (Inr n1, w1)"
    using process_sheet_total [OF assms] by blast
  with Cons [of n1 w1] show ?case by simp
qed

lemma run_returns:
  assumes "path_exists e excel_path"
    and "path_exists e (joinpath (TEMPLATE_DIR e) template_file)"
    and "path_exists e (TEMPLATE_DIR e)"
    and "read_excel e excel_path = Inr sheets"
    and "get_template e template_file = Inr template"
    and "\<forall>c. \<exists>out. template c = Inr out"
    and "\<forall>p. open_w e p"
  shows "\<exists>w'. generate_emails e excel_path template_file w = (Returned, w')"
proof -
  obtain n1 w1 where "sheets_loop e template (parent excel_path) sheets 0 w = (Inr n1, w1)"
    using sheets_loop_returns [OF assms(6,7)] by blast
  then show ?thesis using assms(1-5) by (simp add: generate_emails_def Let_def)
qed

lemma good_env_returns:
  "\<exists>w'. generate_emails (good_env sheets) book_path ''template.txt'' world0 = (Returned, w')"
proof (rule run_returns)
  show "path_exists (good_env sheets) book_path" by (simp add: good_env_def)
  show "path_exists (good_env sheets) (joinpath (TEMPLATE_DIR (good_env sheets)) ''template.txt'')"
    by (simp add: good_env_def)
  show "path_exists (good_env sheets) (TEMPLATE_DIR (good_env sheets))" by (simp add: good_env_def)
  show "read_excel (good_env sheets) book_path = Inr sheets" by (simp add: good_env_def)
  show "get_template (good_env sheets) ''template.txt'' = Inr hello_template" by (simp add: good_env_def)
  show "\<forall>c. \<exists>out. hello_template c = Inr out" by (simp add: hello_template_def)
  show "\<forall>p. open_w (good_env sheets) p" by (simp add: good_env_def)
qed

lemma sheets_loop_total:
  "sheets_loop e template output_dir sheets n w = (Inr n', w') \<Longrightarrow>
     n' = n + all_sheet_rows sheets
     \<and> (\<exists>ls. stdout w' = stdout w @ ls \<and> length ls = length sheets)"
proof (induction sheets arbitrary: n w)
  case Nil
  then show ?case by (simp add: all_sheet_rows_def)
next
  case (Cons sheet sheets)
  from Cons.prems obtain t1 w1 where
    p: "process_sheet e template output_dir sheet n w = (Inr t1, w1)"
    and l: "sheets_loop e template output_dir sheets t1 w1 = (Inr n', w')"
    by (auto split: prod.splits sum.splits)
  from p have t1: "t1 = n + length (rows (snd sheet))" and s1: "\<exists>l. stdout w1 = stdout w @ [l]"
    by (auto simp: process_sheet_def Let_def fillna_def print_def split: prod.splits sum.splits if_splits)
  from Cons.IH [OF l] t1 s1 show ?case
    by (auto simp: all_sheet_rows_def split: prod.splits)
qed

lemma rows_example:
  "all_sheet_rows [time_sheet, no_time_sheet] = 3" "all_sheet_rows [no_time_sheet] = 1"
  "time_sheet_rows [no_time_sheet] = 0"
  by (simp_all add: all_sheet_rows_def time_sheet_rows_def time_sheet_def no_time_sheet_def)

lemma run_summary:
  assumes "generate_emails e excel_path template_file w = (Returned, w')"
    and "read_excel e excel_path = Inr sheets"
  shows "last (stdout w') = Done (all_sheet_rows sheets) (length sheets)"
  using assms
  by (auto simp: generate_emails_def Let_def print_def split: if_splits sum.splits prod.splits
      dest!: sheets_loop_total)

text \<open>
  Claim C3, as stated: the total in the last line printed is the number of rows in the sheets
  with a \<open>Time\<close> column. For a workbook of one sheet with one row and no \<open>Time\<close> column
  that number is 0, and the program prints 1.
\<close>

theorem time_total_counterexample:
  "fst (generate_emails (good_env [no_time_sheet]) book_path ''template.txt'' world0) = Returned
   \<and> last (stdout (snd (generate_emails (good_env [no_time_sheet]) book_path ''template.txt'' world0)))
       \<noteq> Done (time_sheet_rows [no_time_sheet]) (length [no_time_sheet])"
proof -
  obtain w' where r: "generate_emails (good_env [no_time_sheet]) book_path ''template.txt'' world0 = (Returned, w')"
    using good_env_returns by blast
  have x: "read_excel (good_env [no_time_sheet]) book_path = Inr [no_time_sheet]"
    by (simp add: good_env_def)
  from run_summary [OF r x] have "last (stdout w') = Done 1 1"
    by (simp add: rows_example)
  then show ?thesis by (simp add: r rows_example)
qed

text \<open>
  Claim C3, amended. When the program returns, the total in the last line printed is the
  number of rows of all sheets, with or without a \<open>Time\<close> column, and the line gives the
  number of sheets.
\<close>

theorem total_counts_all_rows:
  assumes "generate_emails e excel_path template_file w = (Returned, w')"
    and "read_excel e excel_path = Inr sheets"
  shows "last (stdout w') = Done (all_sheet_rows sheets) (length sheets)"
  using assms by (rule run_summary)

theorem total_counts_all_rows_witness:
  "fst (generate_emails (good_env [time_sheet, no_time_sheet]) book_path ''template.txt'' world0) = Returned
   \<and> read_excel (good_env [time_sheet, no_time_sheet]) book_path = Inr [time_sheet, no_time_sheet]
   \<and> last (stdout (snd (generate_emails (good_env [time_sheet, no_time_sheet]) book_path ''template.txt'' world0)))
       = Done 3 2"
proof -
  obtain w' where r: "generate_emails (good_env [time_sheet, no_time_sheet]) book_path ''template.txt'' world0 = (Returned, w')"
    using good_env_returns by blast
  have x: "read_excel (good_env [time_sheet, no_time_sheet]) book_path = Inr [time_sheet, no_time_sheet]"
    by (simp add: good_env_def)
  from total_counts_all_rows [OF r x] have "last (stdout w') = Done 3 2"
    by (simp add: rows_example)
  then show ?thesis by (simp add: r x)
qed

section \<open>The template checks\<close>

lemma parent_append:
  "fs_closed ex \<Longrightarrow> ex (p\<lparr>parts := parts p @ ps\<rparr>) \<Longrightarrow> ex p"
proof (induction ps rule: rev_induct)
  case Nil
  then show ?case by simp
next
  case (snoc x xs)
  from snoc.prems have "ex (parent (p\<lparr>parts := parts p @ xs @ [x]\<rparr>))"
    by (simp add: fs_closed_def)
  then have "ex (p\<lparr>parts := parts p @ xs\<rparr>)"
    by (simp add: parent_def butlast_append)
  with snoc show ?case by simp
qed

lemma missing_folder_hidden:
  assumes "fs_closed (path_exists e)" and "splitroot template_file = []"
    and "\<not> path_exists e (TEMPLATE_DIR e)" and "path_exists e excel_path"
  shows "generate_emails e excel_path template_file w =
           (SysExit 1, print (TemplateFileNotFound (joinpath (TEMPLATE_DIR e) template_file)) w)"
proof -
  have "\<not> path_exists e (joinpath (TEMPLATE_DIR e) template_file)"
    using assms(1-3) parent_append [of "path_exists e" "TEMPLATE_DIR e" "parse_parts template_file"]
    by (auto simp: joinpath_def)
  then show ?thesis using assms(4) by (simp add: generate_emails_def Let_def)
qed

lemma joinpath_template: "joinpath templates_dir ''template.txt'' = \<lparr>root = ''/'', parts = [''app'', ''templates'', ''template.txt'']\<rparr>"
  by (simp add: joinpath_def splitroot_def parse_parts_def templates_dir_def)

lemma no_folder_closed: "fs_closed (path_exists no_folder_env)"
  by (auto simp: fs_closed_def no_folder_env_def book_path_def templates_dir_def parent_def)

text \<open>
  Claim C4. With the workbook at hand and the template directory missing, the program exits
  with status 1 and prints the message for a missing template file, naming the file, and
  not the message for a missing template directory: the file is looked for first, and it
  cannot exist in a directory that does not.
\<close>

theorem missing_folder_run:
  "\<not> path_exists no_folder_env (TEMPLATE_DIR no_folder_env)
   \<and> generate_emails no_folder_env book_path ''template.txt'' world0 =
       (SysExit 1, \<lparr>stdout = [TemplateFileNotFound \<lparr>root = ''/'', parts = [''app'', ''templates'', ''template.txt'']\<rparr>],
                   writes = []\<rparr>)"
proof -
  have a: "TEMPLATE_DIR no_folder_env = templates_dir" "path_exists no_folder_env book_path"
    by (simp_all add: no_folder_env_def)
  have b: "\<not> path_exists no_folder_env (TEMPLATE_DIR no_folder_env)"
    by (simp add: no_folder_env_def book_path_def templates_dir_def parent_def)
  have c: "splitroot ''template.txt'' = []" by (simp add: splitroot_def)
  from missing_folder_hidden [OF no_folder_closed c b a(2), of world0] b
  show ?thesis by (simp add: a joinpath_template print_def world0_def)
qed

section \<open>The output files\<close>

lemma keep_not_slash: "\<not> keep_char (CHR ''/'')"
  by (simp add: keep_char_def isalnum_def cp_def)

lemma safe_no_slash: "CHR ''/'' \<notin> set (safe_sheet_name s)"
  using keep_not_slash keep_sanitize_char by (auto simp: safe_sheet_name_map)

lemma output_name_parts: "parse_parts (output_name s) = [output_name s] \<and> splitroot (output_name s) = []"
proof -
  have "CHR ''/'' \<notin> set (output_name s)"
    using safe_no_slash [of s] by (simp add: output_name_def)
  then have "split_sep (CHR ''/'') (output_name s) = [output_name s]"
    by (rule split_sep_none)
  then show ?thesis by (simp add: parse_parts_def splitroot_def) (simp add: output_name_def)
qed

lemma output_path_parent:
  "parent (joinpath d (output_name s)) = d \<and> name (joinpath d (output_name s)) = output_name s"
  by (simp add: joinpath_def output_name_parts parent_def name_def)

lemma process_sheet_write:
  "process_sheet e template output_dir sheet n w = (Inr n', w') \<Longrightarrow>
     \<exists>wr. writes w' = writes w @ [wr] \<and> sheet_file template output_dir sheet wr"
  by (auto simp: process_sheet_def sheet_file_def Let_def print_def split: prod.splits sum.splits if_splits)

lemma sheets_loop_writes:
  "sheets_loop e template output_dir sheets n w = (Inr n', w') \<Longrightarrow>
     \<exists>ws. writes w' = writes w @ ws \<and> list_all2 (sheet_file template output_dir) sheets ws"
proof (induction sheets arbitrary: n w)
  case Nil
  then show ?case by simp
next
  case (Cons sheet sheets)
  from Cons.prems obtain t1 w1 where
    p: "process_sheet e template output_dir sheet n w = (Inr t1, w1)"
    and l: "sheets_loop e template output_dir sheets t1 w1 = (Inr n', w')"
    by (auto split: prod.splits sum.splits)
  from process_sheet_write [OF p] obtain wr where
    1: "writes w1 = writes w @ [wr]" "sheet_file template output_dir sheet wr" by blast
  from Cons.IH [OF l] obtain ws where
    2: "writes w' = writes w1 @ ws" "list_all2 (sheet_file template output_dir) sheets ws" by blast
  from 1 2 have "writes w' = writes w @ (wr # ws) \<and> list_all2 (sheet_file template output_dir) (sheet # sheets) (wr # ws)"
    by simp
  then show ?case by blast
qed

text \<open>
  A run that returns has written once for each sheet, in the order of the sheets: to the
  file named \<open>emails_output_\<close>, the sanitized sheet name, \<open>.txt\<close> in the directory of the
  workbook, the messages of the sheet joined by a line feed. A sheet with a \<open>Time\<close> column
  has one message for each row.
\<close>

lemma one_write_per_sheet:
  assumes "generate_emails e excel_path template_file w = (Returned, w')"
    and "read_excel e excel_path = Inr sheets"
    and "get_template e template_file = Inr template"
  shows "\<exists>ws. writes w' = writes w @ ws \<and>
           list_all2 (\<lambda>(sheet_name, df) (p, content).
                p = joinpath (parent excel_path) (output_name sheet_name)
              \<and> name p = ''emails_output_'' @ safe_sheet_name sheet_name @ ''.txt''
              \<and> parent p = parent excel_path
              \<and> (case iterrows template (columns (fillna df)) (rows (fillna df)) [] of
                    Inl _ \<Rightarrow> False
                  | Inr messages \<Rightarrow> content = join [NL] messages))
             sheets ws
         \<and> join [NL] [] = []"
proof -
  from assms obtain n w1 where
    l: "sheets_loop e template (parent excel_path) sheets 0 w = (Inr n, w1)"
    and w': "writes w' = writes w1"
    by (auto simp: generate_emails_def Let_def print_def split: if_splits sum.splits prod.splits)
  from sheets_loop_writes [OF l] obtain ws where
    ws: "writes w1 = writes w @ ws" "list_all2 (sheet_file template (parent excel_path)) sheets ws"
    by blast
  have nm: "\<And>s. ''emails_output_'' @ safe_sheet_name s @ ''.txt'' = output_name s"
    by (simp only: output_name_def)
  have "list_all2 (\<lambda>(sheet_name, df) (p, content).
                p = joinpath (parent excel_path) (output_name sheet_name)
              \<and> name p = ''emails_output_'' @ safe_sheet_name sheet_name @ ''.txt''
              \<and> parent p = parent excel_path
              \<and> (case iterrows template (columns (fillna df)) (rows (fillna df)) [] of
                    Inl _ \<Rightarrow> False
                  | Inr messages \<Rightarrow> content = join [NL] messages))
             sheets ws"
    unfolding nm
    using ws(2)
    by (rule list_all2_mono) (auto simp: sheet_file_def output_path_parent split: sum.splits)
  with ws(1) w' show ?thesis by auto
qed

lemma render_row_length:
  "''Time'' \<in> set cols \<Longrightarrow> render_row template cols row ms = Inr ms' \<Longrightarrow>
     length ms' = Suc (length ms)"
  by (auto simp: render_row_def Let_def make_context_apply split: option.splits sum.splits if_splits)

lemma iterrows_length:
  "''Time'' \<in> set cols \<Longrightarrow> iterrows template cols rws ms = Inr ms' \<Longrightarrow>
     length ms' = length ms + length rws"
proof (induction rws arbitrary: ms)
  case Nil
  then show ?case by simp
next
  case (Cons row rws)
  from Cons.prems(2) obtain ms1 where
    r: "render_row template cols row ms = Inr ms1" and i: "iterrows template cols rws ms1 = Inr ms'"
    by (auto split: sum.splits)
  from render_row_length [OF Cons.prems(1) r] Cons.IH [OF Cons.prems(1) i] show ?case by simp
qed

text \<open>The run on a workbook with the sheets \<open>Team A\<close> and \<open>Team_A\<close>, step by step.\<close>

lemma render_row_step:
  "make_context cols row ''Time'' = Some t \<Longrightarrow> format_time (PyStr t) = Inr t' \<Longrightarrow>
   template ((make_context cols row)(''Time'' \<mapsto> t')) = Inr out \<Longrightarrow>
   render_row template cols row ms =
     Inr (ms @ [''To: '' @ strip (row_get cols row ''email'' []) @ [NL, NL] @ strip out @ [NL, NL] @
                replicate 60 (CHR ''-'') @ [NL]])"
  by (simp add: render_row_def Let_def message_block_def)

lemma hello_context:
  "''Time'' \<in> set cols \<Longrightarrow>
   hello_template ((make_context cols row)(''Time'' \<mapsto> t)) =
     Inr (''  Hello '' @ (if ''name'' \<in> set cols then row ''name'' else []) @ '', your time is '' @ t @ [NL])"
  by (simp add: hello_template_def make_context_apply)

lemma ft_examples:
  "format_time (PyStr ''9am'') = Inr ''9am''" "format_time (PyStr ''09:00:00'') = Inr ''09:00 AM''"
  by code_simp+

lemma strip_examples:
  "strip (''  Hello Cy, your time is 9am'' @ [NL]) = ''Hello Cy, your time is 9am''"
  "strip (''  Hello Bo, your time is 09:00 AM'' @ [NL]) = ''Hello Bo, your time is 09:00 AM''"
  "strip ''bo@x.org'' = ''bo@x.org''" "strip [] = []"
  by (simp_all add: strip_def isspace_def cp_def NL_def)

lemma render_row_al_any:
  "render_row hello_template [''name'', ''email'', ''Time''] row_al ms = Inr (ms @ [al_message])"
proof -
  have c: "make_context [''name'', ''email'', ''Time''] row_al ''Time'' = Some ''13:30:00''"
    by (simp add: make_context_apply row_al_def)
  have h: "hello_template ((make_context [''name'', ''email'', ''Time''] row_al)(''Time'' \<mapsto> ''01:30 PM''))
      = Inr (''  Hello Al, your time is 01:30 PM'' @ [NL])"
    by (simp add: hello_context row_al_def)
  have e: "row_get [''name'', ''email'', ''Time''] row_al ''email'' [] = '' al@x.org ''"
    by (simp add: row_get_def row_al_def)
  show ?thesis
    unfolding render_row_step [where template = hello_template, OF c ft1330 h] e strip_hello strip_email al_message_def by simp
qed

lemma render_row_cy:
  "render_row hello_template [''name'', ''email'', ''Time''] row_cy ms = Inr (ms @ [cy_message])"
proof -
  have c: "make_context [''name'', ''email'', ''Time''] row_cy ''Time'' = Some ''9am''"
    by (simp add: make_context_apply row_cy_def)
  have h: "hello_template ((make_context [''name'', ''email'', ''Time''] row_cy)(''Time'' \<mapsto> ''9am''))
      = Inr (''  Hello Cy, your time is 9am'' @ [NL])"
    by (simp add: hello_context row_cy_def)
  have e: "row_get [''name'', ''email'', ''Time''] row_cy ''email'' [] = []"
    by (simp add: row_get_def row_cy_def)
  show ?thesis
    unfolding render_row_step [where template = hello_template, OF c ft_examples(1) h] e strip_examples cy_message_def by simp
qed

lemma render_row_bo:
  "render_row hello_template [''name'', ''email'', ''Time''] row_bo ms = Inr (ms @ [bo_message])"
proof -
  have c: "make_context [''name'', ''email'', ''Time''] row_bo ''Time'' = Some ''09:00:00''"
    by (simp add: make_context_apply row_bo_def)
  have h: "hello_template ((make_context [''name'', ''email'', ''Time''] row_bo)(''Time'' \<mapsto> ''09:00 AM''))
      = Inr (''  Hello Bo, your time is 09:00 AM'' @ [NL])"
    by (simp add: hello_context row_bo_def)
  have e: "row_get [''name'', ''email'', ''Time''] row_bo ''email'' [] = ''bo@x.org''"
    by (simp add: row_get_def row_bo_def)
  show ?thesis
    unfolding render_row_step [where template = hello_template, OF c ft_examples(2) h] e strip_examples bo_message_def by simp
qed

lemma filled_sheets:
  "fillna (snd time_sheet) = \<lparr>columns = [''name'', ''email'', ''Time''], rows = [row_al, row_cy]\<rparr>"
  "fillna (snd underscore_sheet) = \<lparr>columns = [''name'', ''email'', ''Time''], rows = [row_bo]\<rparr>"
proof -
  have "(\<lambda>col. case (if col = ''name'' then Some ''Al'' else if col = ''email'' then Some '' al@x.org ''
                      else if col = ''Time'' then Some ''13:30:00'' else None) of None \<Rightarrow> [] | Some v \<Rightarrow> v) = row_al"
    by (rule ext) (simp add: row_al_def)
  moreover have "(\<lambda>col. case (if col = ''name'' then Some ''Cy'' else if col = ''Time'' then Some ''9am'' else None)
                       of None \<Rightarrow> [] | Some v \<Rightarrow> v) = row_cy"
    by (rule ext) (simp add: row_cy_def)
  ultimately show "fillna (snd time_sheet) = \<lparr>columns = [''name'', ''email'', ''Time''], rows = [row_al, row_cy]\<rparr>"
    by (simp add: fillna_def time_sheet_def)
  have "(\<lambda>col. case (if col = ''name'' then Some ''Bo'' else if col = ''email'' then Some ''bo@x.org''
                      else if col = ''Time'' then Some ''09:00:00'' else None) of None \<Rightarrow> [] | Some v \<Rightarrow> v) = row_bo"
    by (rule ext) (simp add: row_bo_def)
  then show "fillna (snd underscore_sheet) = \<lparr>columns = [''name'', ''email'', ''Time''], rows = [row_bo]\<rparr>"
    by (simp add: fillna_def underscore_sheet_def)
qed

lemma sheet_messages:
  "iterrows hello_template (columns (fillna (snd time_sheet))) (rows (fillna (snd time_sheet))) [] =
     Inr [al_message, cy_message]"
  "iterrows hello_template (columns (fillna (snd underscore_sheet))) (rows (fillna (snd underscore_sheet))) [] =
     Inr [bo_message]"
  by (simp_all add: filled_sheets render_row_al_any render_row_cy render_row_bo)

lemma process_sheet_eval:
  assumes "iterrows template (columns (fillna (snd sheet))) (rows (fillna (snd sheet))) [] = Inr msgs"
    and "open_w e (joinpath d (output_name (fst sheet)))"
  shows "process_sheet e template d sheet k w =
           (Inr (k + length (rows (snd sheet))),
            print (MessagesWritten (length (rows (snd sheet))) (joinpath d (output_name (fst sheet))))
              (w\<lparr>writes := writes w @ [(joinpath d (output_name (fst sheet)), join [NL] msgs)]\<rparr>))"
  using assms by (simp add: process_sheet_def Let_def case_prod_beta fillna_def)

lemma run_eval:
  assumes "path_exists e excel_path"
    and "path_exists e (joinpath (TEMPLATE_DIR e) template_file)"
    and "path_exists e (TEMPLATE_DIR e)"
    and "read_excel e excel_path = Inr sheets"
    and "get_template e template_file = Inr template"
    and "sheets_loop e template (parent excel_path) sheets 0 w = (Inr n, w1)"
  shows "generate_emails e excel_path template_file w = (Returned, print (Done n (length sheets)) w1)"
  using assms by (simp add: generate_emails_def Let_def)

lemma colliding_paths:
  "joinpath (parent book_path) (output_name (fst time_sheet)) = team_a_path"
  "joinpath (parent book_path) (output_name (fst underscore_sheet)) = team_a_path"
proof -
  have n: "output_name ''Team A'' = ''emails_output_Team_A.txt''" "output_name ''Team_A'' = ''emails_output_Team_A.txt''"
    by (simp_all add: output_name_def safe_sheet_name_def sanitize_char_def keep_char_def isalnum_def cp_def)
  have j: "joinpath (parent book_path) (output_name s) = \<lparr>root = ''/'', parts = [''data'', output_name s]\<rparr>" for s
    unfolding joinpath_def by (simp add: output_name_parts) (simp add: parent_def book_path_def)
  have a: "joinpath (parent book_path) ''emails_output_Team_A.txt'' = team_a_path"
    using j [of "''Team A''", unfolded n] by (simp add: team_a_path_def)
  show "joinpath (parent book_path) (output_name (fst time_sheet)) = team_a_path"
    "joinpath (parent book_path) (output_name (fst underscore_sheet)) = team_a_path"
    by (simp_all add: time_sheet_def underscore_sheet_def n a)
qed

lemma colliding_loop:
  "sheets_loop (good_env ss) hello_template (parent book_path) [time_sheet, underscore_sheet] 0 world0 =
     (Inr 3, \<lparr>stdout = [MessagesWritten 2 team_a_path, MessagesWritten 1 team_a_path],
              writes = [(team_a_path, al_message @ [NL] @ cy_message), (team_a_path, bo_message)]\<rparr>)"
proof -
  have o: "open_w (good_env ss) p" for p by (simp add: good_env_def)
  have l: "length (rows (snd time_sheet)) = 2" "length (rows (snd underscore_sheet)) = 1"
    by (simp_all add: time_sheet_def underscore_sheet_def)
  show ?thesis
    by (simp add: process_sheet_eval [OF sheet_messages(1) o] process_sheet_eval [OF sheet_messages(2) o]
          colliding_paths l print_def world0_def)
qed

text \<open>
  Claim C8. The program's own description says that it creates one text file per sheet. The
  sheets \<open>Team A\<close>, with two rows, and \<open>Team_A\<close>, with one, have the same sanitized name. The
  run returns and reports both sheets, and it writes both to
  \<open>/data/emails_output_Team_A.txt\<close>: first the two messages of \<open>Team A\<close> joined by a line
  feed, then the message of \<open>Team_A\<close>. The second write replaces the first, so the run
  leaves one file for two sheets, and the messages of \<open>Team A\<close> are in no file.
\<close>

theorem colliding_sheets_share_file:
  "safe_sheet_name ''Team A'' = safe_sheet_name ''Team_A''
   \<and> generate_emails (good_env [time_sheet, underscore_sheet]) book_path ''template.txt'' world0 =
       (Returned,
        \<lparr>stdout = [MessagesWritten 2 team_a_path, MessagesWritten 1 team_a_path, Done 3 2],
         writes = [(team_a_path, al_message @ [NL] @ cy_message), (team_a_path, bo_message)]\<rparr>)
   \<and> written_files [(team_a_path, al_message @ [NL] @ cy_message), (team_a_path, bo_message)] =
       [team_a_path \<mapsto> bo_message]"
proof (intro conjI)
  show "safe_sheet_name ''Team A'' = safe_sheet_name ''Team_A''"
    by (simp add: safe_sheet_name_def sanitize_char_def keep_char_def isalnum_def cp_def)
  have "generate_emails (good_env [time_sheet, underscore_sheet]) book_path ''template.txt'' world0 =
       (Returned, print (Done 3 (length [time_sheet, underscore_sheet]))
          \<lparr>stdout = [MessagesWritten 2 team_a_path, MessagesWritten 1 team_a_path],
           writes = [(team_a_path, al_message @ [NL] @ cy_message), (team_a_path, bo_message)]\<rparr>)"
  proof (rule run_eval)
    show "path_exists (good_env [time_sheet, underscore_sheet]) book_path" by (simp add: good_env_def)
    show "path_exists (good_env [time_sheet, underscore_sheet])
            (joinpath (TEMPLATE_DIR (good_env [time_sheet, underscore_sheet])) ''template.txt'')"
      by (simp add: good_env_def)
    show "path_exists (good_env [time_sheet, underscore_sheet]) (TEMPLATE_DIR (good_env [time_sheet, underscore_sheet]))"
      by (simp add: good_env_def)
    show "read_excel (good_env [time_sheet, underscore_sheet]) book_path = Inr [time_sheet, underscore_sheet]"
      by (simp add: good_env_def)
    show "get_template (good_env [time_sheet, underscore_sheet]) ''template.txt'' = Inr hello_template"
      by (simp add: good_env_def)
    show "sheets_loop (good_env [time_sheet, underscore_sheet]) hello_template (parent book_path)
            [time_sheet, underscore_sheet] 0 world0 =
          (Inr 3, \<lparr>stdout = [MessagesWritten 2 team_a_path, MessagesWritten 1 team_a_path],
              writes = [(team_a_path, al_message @ [NL] @ cy_message), (team_a_path, bo_message)]\<rparr>)"
      by (rule colliding_loop)
  qed
  then show "generate_emails (good_env [time_sheet, underscore_sheet]) book_path ''template.txt'' world0 =
       (Returned,
        \<lparr>stdout = [MessagesWritten 2 team_a_path, MessagesWritten 1 team_a_path, Done 3 2],
         writes = [(team_a_path, al_message @ [NL] @ cy_message), (team_a_path, bo_message)]\<rparr>)"
    by (simp add: print_def)
  show "written_files [(team_a_path, al_message @ [NL] @ cy_message), (team_a_path, bo_message)] =
       [team_a_path \<mapsto> bo_message]"
    by (simp add: written_files_def)
qed

end
